theory Spec2Isabelle
  imports Complex_Main "HOL-Library.Sublist"
begin

section \<open>Strings\<close>

text \<open>
  The text of files, requests and responses is modelled as a \<^typ>\<open>string\<close>: one
  \<^typ>\<open>char\<close> per code unit, read as the code point of the same number (U+0000 to
  U+00FF). The string operations of the language that the handlers call (\<open>trim\<close>,
  \<open>split\<close>, \<open>join\<close>, \<open>indexOf\<close>, \<open>slice\<close>, \<open>replace\<close>) are written out on that range.
  The signature hasher, whose inputs are tool names and messages in any script, has
  strings of UTF-16 code units of its own (section Signature hash).
\<close>

abbreviation LF :: char where
  "LF \<equiv> CHR 0x0A"

text \<open>
  \<open>String.prototype.trim\<close> strips WhiteSpace and LineTerminator code points from both
  ends: TAB, LF, VT, FF, CR, SP and NBSP are the ones below U+0100.
\<close>

definition isWhiteSpace :: "char \<Rightarrow> bool" where
  "isWhiteSpace c = ((of_char c :: nat) \<in> {9, 10, 11, 12, 13, 32, 160})"

definition trim :: "string \<Rightarrow> string" where
  "trim s = rev (dropWhile isWhiteSpace (rev (dropWhile isWhiteSpace s)))"

text \<open>\<open>s.split("\n")\<close>: the pieces between line feeds; never empty, \<open>"".split("\n")\<close> is \<open>[""]\<close>.\<close>

fun splitLines :: "string \<Rightarrow> string list" where
  "splitLines [] = [[]]"
| "splitLines (c # cs) =
     (if c = LF then [] # splitLines cs
      else (case splitLines cs of
              [] \<Rightarrow> [[c]]
            | l # ls \<Rightarrow> (c # l) # ls))"

text \<open>\<open>lines.join("\n")\<close>.\<close>

fun joinLines :: "string list \<Rightarrow> string" where
  "joinLines [] = []"
| "joinLines [l] = l"
| "joinLines (l # ls) = l @ LF # joinLines ls"

text \<open>\<open>s.indexOf(needle)\<close>: the first position where \<open>needle\<close> starts; \<open>None\<close> for \<open>-1\<close>.\<close>

fun indexOf :: "string \<Rightarrow> string \<Rightarrow> nat option" where
  "indexOf [] needle = (if needle = [] then Some 0 else None)"
| "indexOf (c # cs) needle =
     (if prefix needle (c # cs) then Some 0 else map_option Suc (indexOf cs needle))"

text \<open>\<open>s.slice(0, n)\<close> is \<^term>\<open>take n s\<close> and \<open>s.slice(n)\<close> is \<^term>\<open>drop n s\<close>.\<close>

text \<open>
  \<open>s.replace(/\.single\(/g, ".maybeSingle(")\<close>: the global replace scans from the left;
  where the pattern matches it emits the replacement and continues after the match,
  elsewhere it copies one code unit.
\<close>

fun replaceAll :: "string \<Rightarrow> string \<Rightarrow> string \<Rightarrow> string" where
  "replaceAll pat rep [] = []"
| "replaceAll pat rep (c # cs) =
     (if pat \<noteq> [] \<and> prefix pat (c # cs)
      then rep @ replaceAll pat rep (drop (length pat) (c # cs))
      else c # replaceAll pat rep cs)"

section \<open>Guardrail configuration\<close>

definition FILE_ALLOWLIST :: "string set" where
  "FILE_ALLOWLIST = {''index.js''}"

definition FIX_ALLOWLIST :: "string set" where
  "FIX_ALLOWLIST = {''replace_single_with_maybeSingle''}"

definition AUTO_APPLY_CONFIDENCE_THRESHOLD :: real where
  "AUTO_APPLY_CONFIDENCE_THRESHOLD = 0.85"

section \<open>Signature hash\<close>














section \<open>Auto-apply policy gate\<close>

text \<open>
  The gate receives whatever the caller passes as confidence score: a number (NaN and
  the infinities are numbers), \<open>undefined\<close>, \<open>null\<close>, or a string that is not a numeric
  literal, such as \<open>"high"\<close>. The comparison \<open>confidenceScore < 0.85\<close> converts its
  operand with \<open>ToNumber\<close>, which gives NaN for \<open>undefined\<close> and for such a string and 0
  for \<open>null\<close>, and it is false as soon as one side is NaN.
\<close>

datatype jsnumber = Finite real | PosInfinity | NegInfinity | NaN

datatype jsoperand = Number jsnumber | Undefined | Null | NonNumericString

definition ToNumber :: "jsoperand \<Rightarrow> jsnumber" where
  "ToNumber v =
     (case v of Number n \<Rightarrow> n | Undefined \<Rightarrow> NaN | Null \<Rightarrow> Finite 0 | NonNumericString \<Rightarrow> NaN)"

fun js_lt :: "jsnumber \<Rightarrow> jsnumber \<Rightarrow> bool" where
  "js_lt (Finite a) (Finite b) = (a < b)"
| "js_lt (Finite a) PosInfinity = True"
| "js_lt NegInfinity (Finite b) = True"
| "js_lt NegInfinity PosInfinity = True"
| "js_lt x y = False"

text \<open>The destructured parameter object is passed as four arguments.\<close>

definition canAutoApply :: "jsoperand \<Rightarrow> bool \<Rightarrow> string \<Rightarrow> string \<Rightarrow> bool" where
  "canAutoApply confidenceScore autoApplicable fixType targetFile =
     (if \<not> autoApplicable then False
      else if js_lt (ToNumber confidenceScore) (Finite AUTO_APPLY_CONFIDENCE_THRESHOLD) then False
      else if fixType \<notin> FIX_ALLOWLIST then False
      else if targetFile \<notin> FILE_ALLOWLIST then False
      else True)"

section \<open>Safe fixers\<close>

record fix_result =
  changed :: bool
  updated :: string
  summary :: string

definition fix_replace_single_with_maybeSingle :: "string \<Rightarrow> fix_result" where
  "fix_replace_single_with_maybeSingle original =
     (let upd = replaceAll ''.single('' ''.maybeSingle('' original;
          chg = (upd \<noteq> original)
      in \<lparr> changed = chg, updated = upd,
           summary = (if chg
             then ''Replaced .single( with .maybeSingle( to avoid 400 errors on 0-row results.''
             else ''No .single( usage found.'') \<rparr>)"

definition runFix :: "string \<Rightarrow> string \<Rightarrow> fix_result" where
  "runFix fixType original =
     (if fixType = ''replace_single_with_maybeSingle''
      then fix_replace_single_with_maybeSingle original
      else \<lparr> changed = False, updated = original, summary = ''Unknown fixType'' \<rparr>)"

section \<open>Semantic diff\<close>

record DiffEntry =
  line :: nat
  before :: string
  after :: string

text \<open>\<open>xs[i]\<close> is \<open>undefined\<close> (\<open>None\<close>) out of range; \<open>v ?? ""\<close> replaces it by the empty string.\<close>

definition elemAt :: "'a list \<Rightarrow> nat \<Rightarrow> 'a option" where
  "elemAt xs i = (if i < length xs then Some (xs ! i) else None)"

definition orEmpty :: "string option \<Rightarrow> string" where
  "orEmpty v = (case v of None \<Rightarrow> [] | Some x \<Rightarrow> x)"

text \<open>The \<open>for\<close> loop of \<open>generateSemanticDiff\<close>, from index \<open>i\<close> with the entries pushed so far.\<close>

function diffLoop ::
  "string list \<Rightarrow> string list \<Rightarrow> nat \<Rightarrow> nat \<Rightarrow> DiffEntry list \<Rightarrow> DiffEntry list" where
  "diffLoop os us mx i entries =
     (if i < mx
      then diffLoop os us mx (i + 1)
             (if elemAt os i \<noteq> elemAt us i
              then entries @ [\<lparr> line = i + 1, before = orEmpty (elemAt os i), after = orEmpty (elemAt us i) \<rparr>]
              else entries)
      else entries)"
  by pat_completeness auto
termination
  by (relation "measure (\<lambda>(os, us, mx, i, entries). mx - i)") auto

definition generateSemanticDiff :: "string \<Rightarrow> string \<Rightarrow> DiffEntry list" where
  "generateSemanticDiff original updated' =
     (let os = splitLines original;
          us = splitLines updated';
          mx = max (length os) (length us)
      in diffLoop os us mx 0 [])"

text \<open>
  The spec's reading of a diff: "applying the sequence of DiffEntries to A (replacing
  each numbered line)". \<open>setLine\<close> replaces line \<open>n\<close> (counted from 0) and, as an
  assignment to a JavaScript array does, extends the lines when \<open>n\<close> is past the end.
\<close>

definition setLine :: "string list \<Rightarrow> nat \<Rightarrow> string \<Rightarrow> string list" where
  "setLine ls n v =
     (if n < length ls then ls[n := v] else ls @ replicate (n - length ls) [] @ [v])"

definition applyDiff :: "string \<Rightarrow> DiffEntry list \<Rightarrow> string" where
  "applyDiff a entries =
     joinLines (foldl (\<lambda>ls e. setLine ls (line e - 1) (after e)) (splitLines a) entries)"

section \<open>Process state: file system, event store, lock map\<close>

text \<open>
  Paths are relative to \<open>process.cwd()\<close>: \<open>path.join(process.cwd(), targetFile)\<close> is the
  key \<open>targetFile\<close>. \<open>unwritable\<close> holds the paths the process may not create or
  write, so that \<open>mkdirSync\<close>, \<open>copyFileSync\<close> and \<open>writeFileSync\<close> can throw.
  A table of the event store that is missing or unreachable is \<open>None\<close>.
\<close>

datatype jsvalue = JStr string | JBool bool | JNum nat

type_synonym row = "(string \<times> jsvalue) list"

datatype exn = ENOENT string | EACCES string | EISDIR string | TypeError

record state =
  files :: "string \<rightharpoonup> string"
  dirs :: "string set"
  unwritable :: "string set"
  tables :: "string \<rightharpoonup> row list"
  fileLocks :: "string \<rightharpoonup> bool"

definition PROPOSALS_DIR :: string where
  "PROPOSALS_DIR = ''fix-proposals''"

definition BACKUPS_DIR :: string where
  "BACKUPS_DIR = ''fix-backups''"

definition existsSync :: "string \<Rightarrow> state \<Rightarrow> bool" where
  "existsSync p s = (files s p \<noteq> None \<or> p \<in> dirs s)"

definition ensureDir :: "string \<Rightarrow> state \<Rightarrow> exn + state" where
  "ensureDir dir s =
     (if \<not> existsSync dir s
      then (if dir \<in> unwritable s then Inl (EACCES dir)
            else Inr (s\<lparr>dirs := insert dir (dirs s)\<rparr>))
      else Inr s)"

text \<open>\<open>now\<close> is what \<open>new Date().toISOString()\<close> returns at the call.\<close>

definition nowStamp :: "string \<Rightarrow> string" where
  "nowStamp now = map (\<lambda>c. if c = CHR '':'' \<or> c = CHR ''.'' then CHR ''-'' else c) now"

definition readText :: "string \<Rightarrow> state \<Rightarrow> exn + string" where
  "readText filePath s =
     (case files s filePath of
        Some content \<Rightarrow> Inr content
      | None \<Rightarrow> Inl (if filePath \<in> dirs s then EISDIR filePath else ENOENT filePath))"

definition writeText :: "string \<Rightarrow> string \<Rightarrow> state \<Rightarrow> exn + state" where
  "writeText filePath content s =
     (if filePath \<in> dirs s then Inl (EISDIR filePath)
      else if filePath \<in> unwritable s then Inl (EACCES filePath)
      else Inr (s\<lparr>files := (files s)(filePath \<mapsto> content)\<rparr>))"

definition copyFileSync :: "string \<Rightarrow> string \<Rightarrow> state \<Rightarrow> exn + state" where
  "copyFileSync src dest s =
     (case files s src of
        None \<Rightarrow> Inl (if src \<in> dirs s then EISDIR src else ENOENT src)
      | Some content \<Rightarrow>
          if dest \<in> dirs s then Inl (EISDIR dest)
          else if dest \<in> unwritable s then Inl (EACCES dest)
          else Inr (s\<lparr>files := (files s)(dest \<mapsto> content)\<rparr>))"

text \<open>\<open>path.basename\<close>: what follows the last separator.\<close>

definition basename :: "string \<Rightarrow> string" where
  "basename p = rev (takeWhile (\<lambda>c. c \<noteq> CHR ''/'') (rev p))"

record backup =
  backupName :: string
  backupPath :: string

definition backupFile :: "string \<Rightarrow> string \<Rightarrow> state \<Rightarrow> (exn + backup) \<times> state" where
  "backupFile now targetPath s =
     (case ensureDir BACKUPS_DIR s of
        Inl e \<Rightarrow> (Inl e, s)
      | Inr s1 \<Rightarrow>
          let base = basename targetPath;
              name = base @ ''.'' @ nowStamp now @ ''.bak'';
              path = BACKUPS_DIR @ ''/'' @ name
          in (case copyFileSync targetPath path s1 of
                Inl e \<Rightarrow> (Inl e, s1)
              | Inr s2 \<Rightarrow> (Inr \<lparr> backupName = name, backupPath = path \<rparr>, s2)))"

text \<open>
  \<open>tryInsert\<close> appends the rows when the table is there and reports failure otherwise;
  it never throws.
\<close>

definition tryInsert :: "string \<Rightarrow> row list \<Rightarrow> state \<Rightarrow> bool \<times> state" where
  "tryInsert tbl payload s =
     (case tables s tbl of
        None \<Rightarrow> (False, s)
      | Some rows \<Rightarrow> (True, s\<lparr>tables := (tables s)(tbl \<mapsto> rows @ payload)\<rparr>))"

text \<open>
  \<open>supabase.from(tbl).select("*").eq(col, v).maybeSingle()\<close>, its \<open>data\<close> field: the one
  matching row; \<open>null\<close> when no row matches, when several do (the client reports an
  error then) and when the table cannot be read.
\<close>

definition selectMaybeSingle :: "string \<Rightarrow> string \<Rightarrow> jsvalue \<Rightarrow> state \<Rightarrow> row option" where
  "selectMaybeSingle tbl col v s =
     (case tables s tbl of
        None \<Rightarrow> None
      | Some rows \<Rightarrow>
          (case filter (\<lambda>r. map_of r col = Some v) rows of
             [r] \<Rightarrow> Some r
           | _ \<Rightarrow> None))"

section \<open>File lock\<close>

text \<open>
  The polling loop of \<open>withFileLock\<close>. In this sequential model nothing else runs
  between two polls, so the loop returns at once when the lock is free and never
  returns (\<open>None\<close>) when it is held.
\<close>

partial_function (option) waitForLock :: "string \<Rightarrow> state \<Rightarrow> state option" where
  "waitForLock file s =
     (if fileLocks s file = Some True then waitForLock file s else Some s)"

text \<open>\<open>fileLocks.set(file, true)\<close> and \<open>fileLocks.delete(file)\<close>.\<close>

definition lockSet :: "string \<Rightarrow> state \<Rightarrow> state" where
  "lockSet file s = s\<lparr>fileLocks := (fileLocks s)(file \<mapsto> True)\<rparr>"

definition lockDelete :: "string \<Rightarrow> state \<Rightarrow> state" where
  "lockDelete file s = s\<lparr>fileLocks := (fileLocks s)(file := None)\<rparr>"

text \<open>
  The guarded body \<open>fn\<close> returns a value (\<open>Inr\<close>) or throws (\<open>Inl\<close>), with the state it
  leaves; the \<open>finally\<close> block deletes the lock in both cases.
\<close>

definition withFileLock ::
  "string \<Rightarrow> (state \<Rightarrow> (exn + 'a) \<times> state) \<Rightarrow> state \<Rightarrow> ((exn + 'a) \<times> state) option" where
  "withFileLock file fn s =
     (case waitForLock file s of
        None \<Rightarrow> None
      | Some s0 \<Rightarrow>
          let s1 = lockSet file s0;
              (r, s2) = fn s1
          in Some (r, lockDelete file s2))"

section \<open>HTTP layer\<close>

text \<open>
  A field of the JSON body or a header is a string or absent (\<open>None\<close>); \<open>!v\<close> holds
  of an absent field and of the empty string. A response is the status code and the
  JSON body, one constructor per shape of body that the two handlers send.
\<close>

definition falsy :: "string option \<Rightarrow> bool" where
  "falsy v = (v = None \<or> v = Some [])"

definition str :: "string option \<Rightarrow> string" where
  "str v = (case v of None \<Rightarrow> [] | Some x \<Rightarrow> x)"

datatype body =
    ErrorBody string
  | DuplicateBody string string
  | FixDryRun string string string bool string "DiffEntry list"
  | FixApplied backup string
  | ProposalDryRun string string string string "DiffEntry list"
  | ProposalApplied string string string string backup nat

datatype response = Response (status: nat) (body: body)

type_synonym outcome = "(exn + response) \<times> state"

definition requirePanelAuth :: "string \<Rightarrow> string option \<Rightarrow> response option" where
  "requirePanelAuth PANEL_TOKEN got =
     (if PANEL_TOKEN = []
      then Some (Response 500 (ErrorBody
             ''PANEL_TOKEN is not set. Add it to Secrets to protect apply endpoints.''))
      else if falsy got \<or> got \<noteq> Some PANEL_TOKEN
      then Some (Response 401 (ErrorBody ''Unauthorized (bad token)''))
      else None)"

subsection \<open>POST /apply-fix\<close>

record apply_fix_request =
  fix_x_panel_token :: "string option"
  fix_targetFile :: "string option"
  fix_fixType :: "string option"
  fix_mode :: "string option"

text \<open>The callback that runs under the file lock.\<close>

definition apply_fix_locked ::
  "(string \<Rightarrow> string) \<Rightarrow> string \<Rightarrow> string \<Rightarrow> string \<Rightarrow> string \<Rightarrow> string \<Rightarrow> state \<Rightarrow> outcome" where
  "apply_fix_locked h now targetFile fixType mode targetPath s =
     (case readText targetPath s of
        Inl e \<Rightarrow> (Inl e, s)
      | Inr original \<Rightarrow>
          let result = runFix fixType original;
              diff = generateSemanticDiff original (updated result);
              s1 = snd (tryInsert ''fix_attempts''
                     [[(''source'', JStr ''panel''), (''target_file'', JStr targetFile),
                       (''fix_type'', JStr fixType), (''mode'', JStr mode),
                       (''changed'', JBool (changed result)),
                       (''summary'', JStr (summary result)),
                       (''diff_count'', JNum (length diff))]] s)
          in if mode = ''dry-run''
             then (Inr (Response 200
                     (FixDryRun mode targetFile fixType (changed result) (summary result) diff)), s1)
             else (case backupFile now targetPath s1 of
                     (Inl e, s2) \<Rightarrow> (Inl e, s2)
                   | (Inr bk, s2) \<Rightarrow>
                       (case writeText targetPath (updated result) s2 of
                          Inl e \<Rightarrow> (Inl e, s2)
                        | Inr s3 \<Rightarrow>
                            let s4 = snd (tryInsert ''applied_patches''
                                  [[(''source'', JStr ''panel''), (''target_file'', JStr targetFile),
                                    (''patch_type'', JStr ''fix''),
                                    (''patch_key'', JStr (h (fixType @ ''|'' @ targetFile @ ''|'' @
                                                            backupName bk))),
                                    (''summary'', JStr (summary result)),
                                    (''backup_name'', JStr (backupName bk))]] s3)
                            in (Inr (Response 200 (FixApplied bk (summary result))), s4))))"

definition apply_fix ::
  "(string \<Rightarrow> string) \<Rightarrow> string \<Rightarrow> string \<Rightarrow> apply_fix_request \<Rightarrow> state \<Rightarrow> outcome option" where
  "apply_fix h PANEL_TOKEN now req s =
     (case requirePanelAuth PANEL_TOKEN (fix_x_panel_token req) of
        Some resp \<Rightarrow> Some (Inr resp, s)
      | None \<Rightarrow>
          let targetFile = str (fix_targetFile req);
              fixType = str (fix_fixType req);
              mode = (case fix_mode req of None \<Rightarrow> ''dry-run'' | Some m \<Rightarrow> m)
          in if falsy (fix_targetFile req) \<or> falsy (fix_fixType req)
             then Some (Inr (Response 400 (ErrorBody ''Missing targetFile or fixType'')), s)
             else if targetFile \<notin> FILE_ALLOWLIST
             then Some (Inr (Response 403 (ErrorBody ''File not allowlisted'')), s)
             else if fixType \<notin> FIX_ALLOWLIST
             then Some (Inr (Response 403 (ErrorBody ''Fix not allowlisted'')), s)
             else if mode \<notin> {''dry-run'', ''apply''}
             then Some (Inr (Response 400 (ErrorBody ''Invalid mode'')), s)
             else let targetPath = targetFile
                  in if \<not> existsSync targetPath s
                     then Some (Inr (Response 404 (ErrorBody ''Target file not found'')), s)
                     else withFileLock targetFile
                            (apply_fix_locked h now targetFile fixType mode targetPath) s)"

subsection \<open>POST /apply-proposal\<close>

text \<open>
  \<open>INSERTION_ZONES[zone]\<close>: the two zones of the table carry a marker. The keys that
  every object inherits from \<open>Object.prototype\<close> also give a truthy value, whose
  \<open>marker\<close> is \<open>undefined\<close>.
\<close>

definition INSERTION_ZONES :: "string \<rightharpoonup> string" where
  "INSERTION_ZONES =
     [''routes'' \<mapsto>
        ''/* ============================='' @ [LF] @ ''   ROUTES'' @ [LF] @
        ''============================= */'',
      ''helpers'' \<mapsto>
        ''/* ============================='' @ [LF] @ ''   HELPERS'' @ [LF] @
        ''============================= */'']"

definition inheritedKeys :: "string set" where
  "inheritedKeys =
     {''constructor'', ''hasOwnProperty'', ''isPrototypeOf'', ''propertyIsEnumerable'',
      ''toLocaleString'', ''toString'', ''valueOf'', ''__proto__'',
      ''__defineGetter__'', ''__defineSetter__'', ''__lookupGetter__'', ''__lookupSetter__''}"

text \<open>
  The zone-insertion step: locate the marker, splice the trimmed code after it between
  blank lines. \<open>None\<close> when the marker is not in the text.
\<close>

definition insertAtMarker :: "string \<Rightarrow> string \<Rightarrow> string \<Rightarrow> string option" where
  "insertAtMarker original marker proposedCode =
     (case indexOf original marker of
        None \<Rightarrow> None
      | Some idx \<Rightarrow>
          let insertionPoint = idx + length marker;
              normalizedCode = trim proposedCode
          in Some (take insertionPoint original @ [LF, LF] @ normalizedCode @ [LF, LF] @
                   drop insertionPoint original))"

text \<open>\<open>Buffer.byteLength(s, "utf-8")\<close>: code points from U+0080 on take two bytes.\<close>

definition byteLength :: "string \<Rightarrow> nat" where
  "byteLength s = length s + length (filter (\<lambda>c. 128 \<le> (of_char c :: nat)) s)"

record apply_proposal_request =
  prop_x_panel_token :: "string option"
  prop_targetFile :: "string option"
  prop_zone :: "string option"
  prop_proposedCode :: "string option"
  prop_intent :: "string option"
  prop_mode :: "string option"
  prop_project :: "string option"

text \<open>The callback that runs under the file lock.\<close>

definition apply_proposal_locked ::
  "(string \<Rightarrow> string) \<Rightarrow> string \<Rightarrow> string \<Rightarrow> string \<Rightarrow> string \<Rightarrow> string \<Rightarrow> string \<Rightarrow> string
     \<Rightarrow> string \<Rightarrow> state \<Rightarrow> outcome" where
  "apply_proposal_locked h now targetFile zone proposedCode intent mode project targetPath s =
     (case readText targetPath s of
        Inl e \<Rightarrow> (Inl e, s)
      | Inr original \<Rightarrow>
          (case INSERTION_ZONES zone of
             None \<Rightarrow>
               (case indexOf original ''undefined'' of
                  None \<Rightarrow> (Inr (Response 400 (ErrorBody ''Insertion marker not found'')), s)
                | Some idx \<Rightarrow> (Inl TypeError, s))
           | Some marker \<Rightarrow>
               (case insertAtMarker original marker proposedCode of
                  None \<Rightarrow> (Inr (Response 400 (ErrorBody ''Insertion marker not found'')), s)
                | Some updated' \<Rightarrow>
                    let normalizedCode = trim proposedCode;
                        semanticDiff = generateSemanticDiff original updated';
                        proposalHash =
                          h (targetFile @ ''|'' @ zone @ ''|'' @ intent @ ''|'' @ normalizedCode);
                        s1 = snd (tryInsert ''code_proposals''
                               [[(''source'', JStr ''panel''), (''project'', JStr project),
                                 (''target_file'', JStr targetFile),
                                 (''insertion_zone'', JStr zone), (''intent'', JStr intent),
                                 (''proposed_code'', JStr normalizedCode),
                                 (''proposal_hash'', JStr proposalHash), (''mode'', JStr mode),
                                 (''status'', JStr (if mode = ''apply'' then ''applied_requested''
                                                    else ''previewed''))]] s);
                        s2 = snd (tryInsert ''file_snapshots''
                               [[(''project'', JStr project), (''file_path'', JStr targetFile),
                                 (''content_hash'', JStr (h original)),
                                 (''bytes'', JNum (byteLength original))]] s1)
                    in if mode = ''dry-run''
                       then (Inr (Response 200
                               (ProposalDryRun targetFile zone intent proposalHash semanticDiff)), s2)
                       else (case selectMaybeSingle ''applied_patches'' ''patch_key''
                                    (JStr proposalHash) s2 of
                               Some already \<Rightarrow>
                                 (Inr (Response 409 (DuplicateBody
                                    ''This proposalHash was already applied (duplicate prevented).''
                                    proposalHash)), s2)
                             | None \<Rightarrow>
                                 (case backupFile now targetPath s2 of
                                    (Inl e, s3) \<Rightarrow> (Inl e, s3)
                                  | (Inr bk, s3) \<Rightarrow>
                                      (case writeText targetPath updated' s3 of
                                         Inl e \<Rightarrow> (Inl e, s3)
                                       | Inr s4 \<Rightarrow>
                                           let s5 = snd (tryInsert ''applied_patches''
                                                 [[(''source'', JStr ''panel''),
                                                   (''project'', JStr project),
                                                   (''target_file'', JStr targetFile),
                                                   (''patch_type'', JStr ''proposal''),
                                                   (''patch_key'', JStr proposalHash),
                                                   (''summary'', JStr intent),
                                                   (''backup_name'', JStr (backupName bk))]] s4)
                                           in (Inr (Response 200
                                                 (ProposalApplied targetFile zone intent proposalHash
                                                    bk (length semanticDiff))), s5)))))))"

definition apply_proposal ::
  "(string \<Rightarrow> string) \<Rightarrow> string \<Rightarrow> string \<Rightarrow> apply_proposal_request \<Rightarrow> state \<Rightarrow> outcome option" where
  "apply_proposal h PANEL_TOKEN now req s =
     (case requirePanelAuth PANEL_TOKEN (prop_x_panel_token req) of
        Some resp \<Rightarrow> Some (Inr resp, s)
      | None \<Rightarrow>
          let targetFile = str (prop_targetFile req);
              zone = str (prop_zone req);
              proposedCode = str (prop_proposedCode req);
              intent = str (prop_intent req);
              mode = (case prop_mode req of None \<Rightarrow> ''dry-run'' | Some m \<Rightarrow> m);
              project = (case prop_project req of None \<Rightarrow> ''MLearning'' | Some p \<Rightarrow> p)
          in if falsy (prop_targetFile req) \<or> falsy (prop_zone req) \<or>
                falsy (prop_proposedCode req) \<or> falsy (prop_intent req)
             then Some (Inr (Response 400
                    (ErrorBody ''Missing targetFile, zone, proposedCode, or intent'')), s)
             else if targetFile \<notin> FILE_ALLOWLIST
             then Some (Inr (Response 403 (ErrorBody ''Target file not allowlisted'')), s)
             else if INSERTION_ZONES zone = None \<and> zone \<notin> inheritedKeys
             then Some (Inr (Response 400 (ErrorBody (''Unknown zone: '' @ zone))), s)
             else if mode \<notin> {''dry-run'', ''apply''}
             then Some (Inr (Response 400 (ErrorBody ''Invalid mode'')), s)
             else let targetPath = targetFile
                  in if \<not> existsSync targetPath s
                     then Some (Inr (Response 404 (ErrorBody ''Target file not found'')), s)
                     else withFileLock targetFile
                            (apply_proposal_locked h now targetFile zone proposedCode intent mode
                               project targetPath) s)"

section \<open>Vocabulary of the specification\<close>



text \<open>\<open>x >= y\<close> on numbers: false as soon as one side is NaN.\<close>

fun js_ge :: "jsnumber \<Rightarrow> jsnumber \<Rightarrow> bool" where
  "js_ge (Finite a) (Finite b) = (a \<ge> b)"
| "js_ge PosInfinity (Finite b) = True"
| "js_ge PosInfinity PosInfinity = True"
| "js_ge PosInfinity NegInfinity = True"
| "js_ge (Finite a) NegInfinity = True"
| "js_ge NegInfinity NegInfinity = True"
| "js_ge x y = False"

text \<open>The lines of \<open>us\<close>, followed by one empty line for each line that \<open>os\<close> has more.\<close>

definition padded :: "string list \<Rightarrow> string list \<Rightarrow> string list" where
  "padded os us = us @ replicate (length os - length us) []"

abbreviation applyEntry :: "string list \<Rightarrow> DiffEntry \<Rightarrow> string list" where
  "applyEntry \<equiv> (\<lambda>ls e. setLine ls (line e - 1) (after e))"

text \<open>
  The backup location of a target at a time: the file in the backup directory named
  by the base name of the target and the time stamp, \<open>fix-backups/<base>.<stamp>.bak\<close>.
\<close>

definition backupLocation :: "string \<Rightarrow> string \<Rightarrow> string" where
  "backupLocation now targetPath =
     BACKUPS_DIR @ ''/'' @ basename targetPath @ ''.'' @ nowStamp now @ ''.bak''"

text \<open>
  A destructive write is backed up when the backup step, run on the file system before
  the operation, succeeds, the path it names is the backup location of the target, and
  that path holds, after the operation, the content that the target had before it.
\<close>

definition backedUp :: "string \<Rightarrow> string \<Rightarrow> state \<Rightarrow> state \<Rightarrow> bool" where
  "backedUp now targetPath s s' =
     (case backupFile now targetPath s of
        (Inl e, s1) \<Rightarrow> False
      | (Inr bk, s1) \<Rightarrow>
          backupPath bk = backupLocation now targetPath \<and>
          files s' (backupPath bk) = files s targetPath)"

text \<open>A location is new in a state when no file is there.\<close>

definition newLocation :: "string \<Rightarrow> state \<Rightarrow> bool" where
  "newLocation path s = (files s path = None)"

text \<open>
  A response reports an overwrite when it is the one sent after \<open>writeText\<close> has
  returned: \<open>applied: true\<close> with the backup descriptor.
\<close>

definition applied :: "exn + response \<Rightarrow> bool" where
  "applied r =
     (case r of
        Inl e \<Rightarrow> False
      | Inr resp \<Rightarrow>
          (case body resp of
             FixApplied bk sm \<Rightarrow> True
           | ProposalApplied tf z i hsh bk n \<Rightarrow> True
           | _ \<Rightarrow> False))"

section \<open>Names for parts of the proposal handler\<close>

text \<open>
  The proposal hash, the state after the two audit rows are recorded, and the patch
  record, as \<open>apply_proposal_locked\<close> computes them.
\<close>

definition proposalHashOf :: "(string \<Rightarrow> string) \<Rightarrow> string \<Rightarrow> string \<Rightarrow> string \<Rightarrow> string \<Rightarrow> string" where
  "proposalHashOf h targetFile zone intent proposedCode =
     h (targetFile @ ''|'' @ zone @ ''|'' @ intent @ ''|'' @ trim proposedCode)"

definition afterAudit ::
  "(string \<Rightarrow> string) \<Rightarrow> string \<Rightarrow> string \<Rightarrow> string \<Rightarrow> string \<Rightarrow> string \<Rightarrow> string \<Rightarrow> string
     \<Rightarrow> state \<Rightarrow> state" where
  "afterAudit h targetFile zone proposedCode intent mode project original s =
     snd (tryInsert ''file_snapshots''
            [[(''project'', JStr project), (''file_path'', JStr targetFile),
              (''content_hash'', JStr (h original)),
              (''bytes'', JNum (byteLength original))]]
       (snd (tryInsert ''code_proposals''
            [[(''source'', JStr ''panel''), (''project'', JStr project),
              (''target_file'', JStr targetFile),
              (''insertion_zone'', JStr zone), (''intent'', JStr intent),
              (''proposed_code'', JStr (trim proposedCode)),
              (''proposal_hash'', JStr (proposalHashOf h targetFile zone intent proposedCode)),
              (''mode'', JStr mode),
              (''status'', JStr (if mode = ''apply'' then ''applied_requested''
                                 else ''previewed''))]] s)))"

definition patchRow :: "string \<Rightarrow> string \<Rightarrow> string \<Rightarrow> string \<Rightarrow> string \<Rightarrow> row" where
  "patchRow project targetFile hash intent name =
     [(''source'', JStr ''panel''), (''project'', JStr project),
      (''target_file'', JStr targetFile), (''patch_type'', JStr ''proposal''),
      (''patch_key'', JStr hash), (''summary'', JStr intent),
      (''backup_name'', JStr name)]"

section \<open>An example state\<close>

text \<open>
  A working directory with an \<open>index.js\<close> that holds a \<open>.single(\<close> call and the routes
  marker, an event store with an empty \<open>applied_patches\<close> table, and no lock held.
\<close>

definition exampleSource :: string where
  "exampleSource = ''a.single()'' @ [LF] @
     ''/* ============================='' @ [LF] @ ''   ROUTES'' @ [LF] @
     ''============================= */'' @ [LF] @ ''b''"

definition exampleState :: state where
  "exampleState = \<lparr> files = [''index.js'' \<mapsto> exampleSource], dirs = {}, unwritable = {},
      tables = [''applied_patches'' \<mapsto> []], fileLocks = Map.empty \<rparr>"

definition exampleFix :: apply_fix_request where
  "exampleFix = \<lparr> fix_x_panel_token = Some ''secret'', fix_targetFile = Some ''index.js'',
      fix_fixType = Some ''replace_single_with_maybeSingle'', fix_mode = Some ''apply'' \<rparr>"

definition exampleProposal :: apply_proposal_request where
  "exampleProposal = \<lparr> prop_x_panel_token = Some ''secret'', prop_targetFile = Some ''index.js'',
      prop_zone = Some ''routes'', prop_proposedCode = Some '' f() '', prop_intent = Some ''add f'',
      prop_mode = Some ''apply'', prop_project = None \<rparr>"

definition exampleNow :: string where
  "exampleNow = ''2024-01-01T00:00:00.000Z''"

text \<open>
  The state that the fix request leaves behind, and the backup location that a request
  at the same time uses.
\<close>

definition exampleAfterFix :: state where
  "exampleAfterFix =
     (case apply_fix (\<lambda>x. x) ''secret'' exampleNow exampleFix exampleState of
        None \<Rightarrow> exampleState
      | Some (r, s') \<Rightarrow> s')"

section \<open>Properties of the string operations\<close>

lemma strip_surrounding:
  assumes "list_all P l" and "list_all P r"
  shows "rev (dropWhile P (rev (dropWhile P (l @ s @ r)))) = rev (dropWhile P (rev (dropWhile P s)))"
proof -
  from assms(1) have 1: "dropWhile P (l @ s @ r) = dropWhile P (s @ r)"
    by (simp add: list_all_iff dropWhile_append2)
  from assms(2) have r: "\<forall>x\<in>set (rev r). P x" by (simp add: list_all_iff)
  show ?thesis
  proof (cases "\<forall>x\<in>set s. P x")
    case True
    with assms(2) have 2: "dropWhile P (s @ r) = []" "dropWhile P s = []"
      by (auto simp: list_all_iff dropWhile_eq_Nil_conv)
    show ?thesis unfolding 1 2 by simp
  next
    case False
    then have 3: "dropWhile P (s @ r) = dropWhile P s @ r"
      by (auto simp: dropWhile_append)
    from r have "dropWhile P (rev r @ rev (dropWhile P s)) = dropWhile P (rev (dropWhile P s))"
      by (rule dropWhile_append2 [OF bspec])
    then show ?thesis unfolding 1 3 by simp
  qed
qed

lemma trim_surrounding_whitespace:
  assumes "list_all isWhiteSpace l" and "list_all isWhiteSpace r"
  shows "trim (l @ s @ r) = trim s"
  unfolding trim_def using assms by (rule strip_surrounding)

lemma indexOf_Some_prefix: "indexOf s m = Some i \<Longrightarrow> prefix m (drop i s) \<and> i \<le> length s"
proof (induction s arbitrary: i)
  case Nil
  then show ?case by (simp split: if_splits)
next
  case (Cons c cs)
  show ?case
  proof (cases "prefix m (c # cs)")
    case True
    with Cons.prems show ?thesis by simp
  next
    case False
    with Cons.prems obtain j where "indexOf cs m = Some j" "i = Suc j" by auto
    with Cons.IH [of j] show ?thesis by simp
  qed
qed

lemma prefix_indexOf: "prefix m (drop i s) \<Longrightarrow> i \<le> length s \<Longrightarrow> indexOf s m \<noteq> None"
proof (induction s arbitrary: i)
  case Nil
  then show ?case by simp
next
  case (Cons c cs)
  show ?case
  proof (cases i)
    case 0
    with Cons.prems show ?thesis by simp
  next
    case (Suc j)
    with Cons.prems Cons.IH [of j] show ?thesis by auto
  qed
qed

section \<open>Signature hash: properties\<close>















section \<open>Auto-apply policy gate: properties\<close>

text \<open>
  C7, as the code has it. For every confidence score that is a number other than NaN,
  \<open>canAutoApply\<close> is true exactly when \<open>autoApplicable\<close> is true, the score is at least
  0.85, the fix type is allowlisted and the target file is allowlisted; a score of
  exactly 0.85 passes.
\<close>

theorem canAutoApply_iff:
  assumes "ToNumber confidenceScore \<noteq> NaN"
  shows "canAutoApply confidenceScore autoApplicable fixType targetFile =
           (autoApplicable \<and> js_ge (ToNumber confidenceScore) (Finite 0.85) \<and>
            fixType \<in> FIX_ALLOWLIST \<and> targetFile \<in> FILE_ALLOWLIST) \<and>
         canAutoApply (Number (Finite 0.85)) True ''replace_single_with_maybeSingle'' ''index.js''"
  using assms
  by (cases "ToNumber confidenceScore")
     (auto simp: canAutoApply_def AUTO_APPLY_CONFIDENCE_THRESHOLD_def FIX_ALLOWLIST_def
        FILE_ALLOWLIST_def ToNumber_def)

theorem canAutoApply_iff_witness:
  "ToNumber (Number (Finite 0.9)) \<noteq> NaN \<and>
   canAutoApply (Number (Finite 0.9)) True ''replace_single_with_maybeSingle'' ''index.js'' \<and>
   js_ge (ToNumber (Number (Finite 0.9))) (Finite 0.85)"
proof -
  have n: "ToNumber (Number (Finite 0.9)) \<noteq> NaN" by (simp add: ToNumber_def)
  from canAutoApply_iff [OF n, of True "''replace_single_with_maybeSingle''" "''index.js''"]
  show ?thesis by (simp add: ToNumber_def FIX_ALLOWLIST_def FILE_ALLOWLIST_def)
qed

text \<open>
  With a score that is NaN, \<open>undefined\<close> or a non-numeric string the test
  \<open>confidenceScore < 0.85\<close> is false, so the gate answers true although the score is
  not at least 0.85.
\<close>

theorem canAutoApply_iff_counterexample:
  "canAutoApply (Number NaN) True ''replace_single_with_maybeSingle'' ''index.js'' \<and>
   \<not> js_ge (ToNumber (Number NaN)) (Finite 0.85) \<and>
   canAutoApply Undefined True ''replace_single_with_maybeSingle'' ''index.js'' \<and>
   \<not> js_ge (ToNumber Undefined) (Finite 0.85) \<and>
   canAutoApply NonNumericString True ''replace_single_with_maybeSingle'' ''index.js'' \<and>
   \<not> js_ge (ToNumber NonNumericString) (Finite 0.85)"
  by (simp add: canAutoApply_def ToNumber_def FIX_ALLOWLIST_def FILE_ALLOWLIST_def)

section \<open>Safe fixers: properties\<close>

lemma replaceAll_keeps_replacement:
  "replaceAll ''.single('' ''.maybeSingle('' (''.maybeSingle('' @ t) =
   ''.maybeSingle('' @ replaceAll ''.single('' ''.maybeSingle('' t"
  by simp

lemma prefix_replaceAll_no_dot:
  "CHR ''.'' \<notin> set q \<Longrightarrow> prefix q (replaceAll ''.single('' ''.maybeSingle('' s) \<Longrightarrow> prefix q s"
proof (induction s arbitrary: q)
  case Nil
  then show ?case by simp
next
  case (Cons c cs)
  show ?case
  proof (cases q)
    case Nil
    then show ?thesis by simp
  next
    case (Cons d ds)
    show ?thesis
    proof (cases "prefix ''.single('' (c # cs)")
      case True
      with Cons.prems \<open>q = d # ds\<close> show ?thesis by auto
    next
      case False
      with Cons.prems Cons.IH [of ds] \<open>q = d # ds\<close> show ?thesis by auto
    qed
  qed
qed

lemma replaceAll_idem:
  "pat = ''.single('' \<Longrightarrow> rep = ''.maybeSingle('' \<Longrightarrow>
   replaceAll pat rep (replaceAll pat rep s) = replaceAll pat rep s"
proof (induction pat rep s rule: replaceAll.induct)
  case (1 pat rep)
  then show ?case by simp
next
  case (2 pat rep c cs)
  show ?case
  proof (cases "prefix pat (c # cs)")
    case True
    with 2 have ih: "replaceAll pat rep (replaceAll pat rep (drop (length pat) (c # cs))) =
        replaceAll pat rep (drop (length pat) (c # cs))" by simp
    from True 2 have "replaceAll pat rep (c # cs) = rep @ replaceAll pat rep (drop (length pat) (c # cs))"
      by simp
    with ih 2 show ?thesis using replaceAll_keeps_replacement by simp
  next
    case False
    with 2 have ih: "replaceAll pat rep (replaceAll pat rep cs) = replaceAll pat rep cs" by simp
    from False have r: "replaceAll pat rep (c # cs) = c # replaceAll pat rep cs" by simp
    have "\<not> prefix pat (c # replaceAll pat rep cs)"
    proof
      assume a: "prefix pat (c # replaceAll pat rep cs)"
      with 2 have c: "c = CHR ''.''"
        and "prefix ''single('' (replaceAll ''.single('' ''.maybeSingle('' cs)"
        by auto
      then have "prefix ''single('' cs" using prefix_replaceAll_no_dot by simp
      with c 2 False show False by simp
    qed
    with r ih show ?thesis by simp
  qed
qed

text \<open>
  C8. The fixer is idempotent: run on the \<open>updated\<close> text \<open>U\<close> of a first run, it reports
  \<open>changed = false\<close> and returns \<open>U\<close>.
\<close>

theorem fix_replace_single_with_maybeSingle_idempotent:
  "changed (fix_replace_single_with_maybeSingle
              (updated (fix_replace_single_with_maybeSingle t))) = False \<and>
   updated (fix_replace_single_with_maybeSingle
              (updated (fix_replace_single_with_maybeSingle t))) =
     updated (fix_replace_single_with_maybeSingle t)"
  by (simp add: fix_replace_single_with_maybeSingle_def Let_def replaceAll_idem)

section \<open>Semantic diff: properties\<close>

lemma length_padded: "length (padded os us) = max (length os) (length us)"
  by (simp add: padded_def)

lemma padded_nth:
  "i < max (length os) (length us) \<Longrightarrow> padded os us ! i = orEmpty (elemAt us i)"
  by (simp add: padded_def elemAt_def orEmpty_def nth_append)

lemma setLine_step:
  assumes "i < length U"
  shows "setLine (take i U @ drop i os) i (U ! i) = take (Suc i) U @ drop (Suc i) os"
proof (cases "i < length os")
  case True
  with assms have "(take i U @ drop i os)[i := U ! i] = take i U @ (drop i os)[0 := U ! i]"
    by (simp add: list_update_append)
  also from True have "(drop i os)[0 := U ! i] = U ! i # drop (Suc i) os"
    by (simp add: Cons_nth_drop_Suc [symmetric])
  finally show ?thesis using assms True
    by (simp add: setLine_def take_Suc_conv_app_nth)
next
  case False
  with assms show ?thesis
    by (simp add: setLine_def take_Suc_conv_app_nth)
qed

lemma same_line_step:
  assumes "i < max (length os) (length us)" and "elemAt os i = elemAt us i"
  shows "take i (padded os us) @ drop i os = take (Suc i) (padded os us) @ drop (Suc i) os"
proof -
  from assms have lt: "i < length os" "i < length us" and eq: "os ! i = us ! i"
    by (auto simp: elemAt_def split: if_splits)
  then have "padded os us ! i = os ! i" by (simp add: padded_def nth_append)
  with lt show ?thesis
    by (simp add: take_Suc_conv_app_nth length_padded Cons_nth_drop_Suc)
qed

lemma diffLoop_apply:
  assumes "mx = max (length os) (length us)" and "i \<le> mx"
    and "foldl applyEntry os acc = take i (padded os us) @ drop i os"
  shows "foldl applyEntry os (diffLoop os us mx i acc) = padded os us"
  using assms
proof (induction os us mx i acc rule: diffLoop.induct)
  case (1 os us mx i acc)
  show ?case
  proof (cases "i < mx")
    case False
    with 1 have "i = mx" by simp
    with 1 show ?thesis by (simp add: length_padded)
  next
    case True
    let ?acc = "if elemAt os i \<noteq> elemAt us i
                then acc @ [\<lparr> line = i + 1, before = orEmpty (elemAt os i), after = orEmpty (elemAt us i) \<rparr>]
                else acc"
    have inv: "foldl applyEntry os ?acc = take (i + 1) (padded os us) @ drop (i + 1) os"
    proof (cases "elemAt os i = elemAt us i")
      case True
      with 1 \<open>i < mx\<close> show ?thesis using same_line_step [of i os us] by simp
    next
      case False
      from 1 \<open>i < mx\<close> have "i < length (padded os us)" by (simp add: length_padded)
      from setLine_step [OF this, of os] 1 \<open>i < mx\<close> False show ?thesis
        by (simp add: padded_nth)
    qed
    from True have "diffLoop os us mx i acc = diffLoop os us mx (i + 1) ?acc"
      by (subst diffLoop.simps) simp
    moreover from True 1 inv have "foldl applyEntry os (diffLoop os us mx (i + 1) ?acc) = padded os us"
      by (intro "1.IH") simp_all
    ultimately show ?thesis by simp
  qed
qed

lemma splitLines_not_Nil: "splitLines s \<noteq> []"
  by (induction s) (auto split: list.splits)

lemma joinLines_Cons: "ls \<noteq> [] \<Longrightarrow> joinLines (l # ls) = l @ LF # joinLines ls"
  by (cases ls) simp_all

lemma joinLines_splitLines: "joinLines (splitLines s) = s"
proof (induction s)
  case Nil
  show ?case by simp
next
  case (Cons c cs)
  obtain l ls where sp: "splitLines cs = l # ls"
    using splitLines_not_Nil [of cs] by (cases "splitLines cs") auto
  show ?case
  proof (cases "c = LF")
    case True
    with Cons sp show ?thesis by simp
  next
    case False
    with Cons sp show ?thesis by (cases ls) auto
  qed
qed

lemma joinLines_single_pad: "joinLines (l # replicate k []) = l @ replicate k LF"
  by (induction k arbitrary: l) simp_all

lemma joinLines_pad: "ls \<noteq> [] \<Longrightarrow> joinLines (ls @ replicate k []) = joinLines ls @ replicate k LF"
proof (induction ls rule: joinLines.induct)
  case 1
  then show ?case by simp
next
  case (2 l)
  show ?case by (simp add: joinLines_single_pad)
next
  case (3 l v va)
  then show ?case by simp
qed

text \<open>
  C5, as the code has it. Applying the entries of \<open>generateSemanticDiff(A, B)\<close> to \<open>A\<close>
  gives \<open>B\<close> followed by one line feed for every line that \<open>A\<close> has more than \<open>B\<close>: a
  surplus line of \<open>A\<close> gets an entry whose \<open>after\<close> is the empty string, so it is
  emptied and not removed. The result is exactly \<open>B\<close> when \<open>A\<close> has no more lines than \<open>B\<close>.
\<close>

theorem applyDiff_generateSemanticDiff:
  "applyDiff a (generateSemanticDiff a b) =
     b @ replicate (length (splitLines a) - length (splitLines b)) LF"
proof -
  have "foldl applyEntry (splitLines a) (generateSemanticDiff a b) = padded (splitLines a) (splitLines b)"
    unfolding generateSemanticDiff_def Let_def
    by (rule diffLoop_apply) simp_all
  then show ?thesis
    by (simp add: applyDiff_def padded_def joinLines_pad splitLines_not_Nil joinLines_splitLines)
qed

text \<open>The round trip as the specification states it fails when \<open>B\<close> has fewer lines than \<open>A\<close>.\<close>

theorem applyDiff_roundtrip_counterexample:
  "applyDiff (''a'' @ [LF] @ ''b'') (generateSemanticDiff (''a'' @ [LF] @ ''b'') ''a'') \<noteq> ''a''"
  by code_simp

section \<open>Zone insertion: properties\<close>

text \<open>
  C4, as the code has it. The line feed that follows the marker in the original text
  stays behind the two inserted after the code, so three line feeds precede \<open>B\<close>.
\<close>

theorem insertAtMarker_example:
  "insertAtMarker (''A'' @ [LF] @ ''/* ROUTES */'' @ [LF] @ ''B'') ''/* ROUTES */''
     ''console.log(1)'' =
   Some (''A'' @ [LF] @ ''/* ROUTES */'' @ [LF, LF] @ ''console.log(1)'' @ [LF, LF, LF] @ ''B'')"
  by (simp add: insertAtMarker_def trim_def isWhiteSpace_def)

text \<open>The text that the specification gives, with two line feeds before \<open>B\<close>, is not the result.\<close>

theorem insertAtMarker_example_counterexample:
  "insertAtMarker (''A'' @ [LF] @ ''/* ROUTES */'' @ [LF] @ ''B'') ''/* ROUTES */''
     ''console.log(1)'' \<noteq>
   Some (''A'' @ [LF] @ ''/* ROUTES */'' @ [LF, LF] @ ''console.log(1)'' @ [LF, LF] @ ''B'')"
  by (simp add: insertAtMarker_def trim_def isWhiteSpace_def)

section \<open>File lock: properties\<close>

lemma waitForLock_free: "fileLocks s file \<noteq> Some True \<Longrightarrow> waitForLock file s = Some s"
  by (subst waitForLock.simps) simp

lemma waitForLock_Some:
  assumes "waitForLock file s = Some s'"
  shows "s' = s \<and> fileLocks s file \<noteq> Some True"
  by (rule waitForLock.raw_induct [OF _ assms]) (auto split: if_splits)

lemma waitForLock_held: "fileLocks s file = Some True \<Longrightarrow> waitForLock file s = None"
  by (cases "waitForLock file s") (auto dest: waitForLock_Some)

lemma withFileLock_eq:
  "withFileLock file fn s =
     (if fileLocks s file = Some True then None
      else Some (fst (fn (lockSet file s)), lockDelete file (snd (fn (lockSet file s)))))"
  by (simp add: withFileLock_def waitForLock_free waitForLock_held Let_def split: prod.splits)

text \<open>
  C6. For every file and every guarded body, whether the body returns or throws:
  when \<open>withFileLock\<close> completes, its result is the body's, no lock for the file is
  held any more, and a later \<open>withFileLock\<close> on the same file acquires the lock and
  completes. It completes whenever the lock is free at the call.
\<close>

theorem withFileLock_releases:
  "(withFileLock file fn s = Some (r, s') \<longrightarrow>
      r = fst (fn (lockSet file s)) \<and> fileLocks s' file = None \<and>
      withFileLock file fn' s' \<noteq> None) \<and>
   (fileLocks s file \<noteq> Some True \<longrightarrow> withFileLock file fn s \<noteq> None)"
  by (auto simp: withFileLock_eq lockDelete_def split: if_splits)

theorem withFileLock_releases_witness:
  "withFileLock ''index.js'' (\<lambda>s. (Inl TypeError :: exn + unit, s)) exampleState =
     Some (Inl TypeError, lockDelete ''index.js'' (lockSet ''index.js'' exampleState)) \<and>
   fileLocks (lockDelete ''index.js'' (lockSet ''index.js'' exampleState)) ''index.js'' = None \<and>
   withFileLock ''index.js'' (\<lambda>s. (Inr (), s))
     (lockDelete ''index.js'' (lockSet ''index.js'' exampleState)) \<noteq> None"
proof -
  have 1: "withFileLock ''index.js'' (\<lambda>s. (Inl TypeError :: exn + unit, s)) exampleState =
     Some (Inl TypeError, lockDelete ''index.js'' (lockSet ''index.js'' exampleState))"
    by (simp add: withFileLock_eq exampleState_def)
  with withFileLock_releases [of "''index.js''" "\<lambda>s. (Inl TypeError :: exn + unit, s)"
      exampleState "Inl TypeError" "lockDelete ''index.js'' (lockSet ''index.js'' exampleState)"
      "\<lambda>s. (Inr (), s)"]
  show ?thesis by blast
qed

section \<open>Frame lemmas for the file system and the store\<close>

lemma lock_frame [simp]:
  "files (lockSet f s) = files s" "dirs (lockSet f s) = dirs s"
  "unwritable (lockSet f s) = unwritable s" "tables (lockSet f s) = tables s"
  "files (lockDelete f s) = files s" "dirs (lockDelete f s) = dirs s"
  "unwritable (lockDelete f s) = unwritable s" "tables (lockDelete f s) = tables s"
  "fileLocks (lockDelete f s) f = None"
  by (simp_all add: lockSet_def lockDelete_def)

lemma tryInsert_frame [simp]:
  "files (snd (tryInsert t p s)) = files s" "dirs (snd (tryInsert t p s)) = dirs s"
  "unwritable (snd (tryInsert t p s)) = unwritable s"
  "fileLocks (snd (tryInsert t p s)) = fileLocks s"
  by (simp_all add: tryInsert_def split: option.splits)

lemma tryInsert_tables:
  "tables (snd (tryInsert t p s)) t' =
     (if t' = t then map_option (\<lambda>rows. rows @ p) (tables s t) else tables s t')"
  by (simp add: tryInsert_def split: option.splits)

lemma afterAudit_frame [simp]:
  "files (afterAudit h tf z c i m pr orig s) = files s"
  "dirs (afterAudit h tf z c i m pr orig s) = dirs s"
  "unwritable (afterAudit h tf z c i m pr orig s) = unwritable s"
  "fileLocks (afterAudit h tf z c i m pr orig s) = fileLocks s"
  by (simp_all add: afterAudit_def)

lemma afterAudit_applied_patches [simp]:
  "tables (afterAudit h tf z c i m pr orig s) ''applied_patches'' = tables s ''applied_patches''"
  by (simp add: afterAudit_def tryInsert_tables)

lemma selectMaybeSingle_tables:
  "tables t tbl = tables s tbl \<Longrightarrow> selectMaybeSingle tbl c v t = selectMaybeSingle tbl c v s"
  by (simp add: selectMaybeSingle_def)

lemma selectMaybeSingle_none:
  "tables s tbl = Some rows \<Longrightarrow> \<forall>row\<in>set rows. map_of row c \<noteq> Some v \<Longrightarrow>
   selectMaybeSingle tbl c v s = None"
  by (simp add: selectMaybeSingle_def filter_False)

lemma selectMaybeSingle_one:
  "tables s tbl = Some (rows @ [new]) \<Longrightarrow> \<forall>row\<in>set rows. map_of row c \<noteq> Some v \<Longrightarrow>
   map_of new c = Some v \<Longrightarrow> selectMaybeSingle tbl c v s = Some new"
  by (simp add: selectMaybeSingle_def filter_False)

lemma ensureDir_cases:
  "(\<exists>e. ensureDir d s = Inl e) \<or>
   (\<exists>s1. ensureDir d s = Inr s1 \<and> files s1 = files s \<and> tables s1 = tables s \<and>
      fileLocks s1 = fileLocks s \<and> unwritable s1 = unwritable s \<and>
      (dirs s1 = insert d (dirs s) \<or> dirs s1 = dirs s))"
  by (auto simp: ensureDir_def)

lemma copyFileSync_Inr:
  "copyFileSync src dest s = Inr s1 \<Longrightarrow>
     \<exists>content. files s src = Some content \<and> s1 = s\<lparr>files := (files s)(dest \<mapsto> content)\<rparr>"
  by (simp add: copyFileSync_def split: option.splits if_splits)

lemma writeText_Inr:
  "writeText p c s = Inr s' \<Longrightarrow> s' = s\<lparr>files := (files s)(p \<mapsto> c)\<rparr>"
  by (auto simp: writeText_def split: if_splits)

lemma backupFile_Inl:
  "backupFile now p s = (Inl e, s1) \<Longrightarrow>
     files s1 = files s \<and> tables s1 = tables s \<and> fileLocks s1 = fileLocks s \<and>
     unwritable s1 = unwritable s"
  using ensureDir_cases [of BACKUPS_DIR s]
  by (auto simp: backupFile_def Let_def split: sum.splits)

lemma backupFile_Inr:
  assumes "backupFile now p s = (Inr bk, s1)"
  shows "\<exists>content. files s p = Some content \<and>
     backupName bk = basename p @ ''.'' @ nowStamp now @ ''.bak'' \<and>
     backupPath bk = BACKUPS_DIR @ ''/'' @ basename p @ ''.'' @ nowStamp now @ ''.bak'' \<and>
     files s1 = (files s)(backupPath bk \<mapsto> content) \<and>
     tables s1 = tables s \<and> fileLocks s1 = fileLocks s \<and> unwritable s1 = unwritable s"
proof -
  from ensureDir_cases [of BACKUPS_DIR s] assms obtain s0 where
    e: "ensureDir BACKUPS_DIR s = Inr s0" "files s0 = files s" "tables s0 = tables s"
      "fileLocks s0 = fileLocks s" "unwritable s0 = unwritable s"
    by (auto simp: backupFile_def)
  let ?path = "BACKUPS_DIR @ ''/'' @ basename p @ ''.'' @ nowStamp now @ ''.bak''"
  from assms e(1) obtain s2 where c: "copyFileSync p ?path s0 = Inr s2"
    and bk: "bk = \<lparr> backupName = basename p @ ''.'' @ nowStamp now @ ''.bak'', backupPath = ?path \<rparr>"
    and s1: "s1 = s2"
    by (auto simp: backupFile_def Let_def split: sum.splits)
  from copyFileSync_Inr [OF c] obtain content where
    "files s0 p = Some content" "s2 = s0\<lparr>files := (files s0)(?path \<mapsto> content)\<rparr>" by blast
  with e bk s1 show ?thesis by simp
qed

lemma backupFile_dirs:
  "backupFile now p s = (r, s1) \<Longrightarrow> dirs s1 \<subseteq> insert BACKUPS_DIR (dirs s) \<and> unwritable s1 = unwritable s"
  using ensureDir_cases [of BACKUPS_DIR s]
  by (auto simp: backupFile_def copyFileSync_def Let_def split: sum.splits option.splits if_splits)

lemma backupFile_fs:
  assumes "files t = files s" and "dirs t = dirs s" and "unwritable t = unwritable s"
  shows "fst (backupFile now p t) = fst (backupFile now p s)"
proof -
  from assms have "existsSync BACKUPS_DIR t = existsSync BACKUPS_DIR s"
    by (simp add: existsSync_def)
  with assms show ?thesis
    by (simp add: backupFile_def ensureDir_def copyFileSync_def Let_def
           split: option.splits)
qed

lemma backup_path_not_target:
  "BACKUPS_DIR @ ''/'' @ basename ''index.js'' @ ''.'' @ nowStamp now @ ''.bak'' \<noteq> ''index.js''"
  by (simp add: BACKUPS_DIR_def)

lemmas example_defs = exampleSource_def exampleState_def exampleFix_def exampleProposal_def
  exampleNow_def

lemmas handler_defs = apply_fix_def apply_proposal_def requirePanelAuth_def
  falsy_def str_def FILE_ALLOWLIST_def FIX_ALLOWLIST_def INSERTION_ZONES_def existsSync_def
  withFileLock_eq lockSet_def lockDelete_def apply_fix_locked_def apply_proposal_locked_def
  readText_def runFix_def fix_replace_single_with_maybeSingle_def insertAtMarker_def trim_def
  isWhiteSpace_def Let_def tryInsert_def backupFile_def ensureDir_def selectMaybeSingle_def
  copyFileSync_def writeText_def BACKUPS_DIR_def

section \<open>The handlers return\<close>

lemma apply_fix_returns:
  "fileLocks s (str (fix_targetFile fq)) \<noteq> Some True \<Longrightarrow> apply_fix h tok now fq s \<noteq> None"
  by (simp add: apply_fix_def withFileLock_eq Let_def split: option.splits)

lemma apply_proposal_returns:
  "fileLocks s (str (prop_targetFile pq)) \<noteq> Some True \<Longrightarrow> apply_proposal h tok now pq s \<noteq> None"
  by (simp add: apply_proposal_def withFileLock_eq Let_def split: option.splits)

section \<open>Preview mode\<close>

lemma apply_fix_locked_dry_run:
  "files (snd (apply_fix_locked h now targetFile fixType ''dry-run'' targetPath s)) = files s \<and>
   dirs (snd (apply_fix_locked h now targetFile fixType ''dry-run'' targetPath s)) = dirs s"
  by (simp add: apply_fix_locked_def Let_def split: sum.splits)

lemma apply_proposal_locked_dry_run:
  "files (snd (apply_proposal_locked h now targetFile zone code intent ''dry-run'' project targetPath s)) = files s \<and>
   dirs (snd (apply_proposal_locked h now targetFile zone code intent ''dry-run'' project targetPath s)) = dirs s"
  by (simp add: apply_proposal_locked_def Let_def split: sum.splits option.splits)

lemma apply_fix_preview:
  assumes "fix_mode req \<noteq> Some ''apply''" and "apply_fix h tok now req s = Some (r, s')"
  shows "files s' = files s \<and> dirs s' = dirs s"
proof (cases "fix_mode req = None \<or> fix_mode req = Some ''dry-run''")
  case True
  with assms(2) show ?thesis
    by (auto simp: apply_fix_def Let_def withFileLock_eq apply_fix_locked_dry_run
        split: option.splits if_splits)
next
  case False
  with assms show ?thesis
    by (auto simp: apply_fix_def Let_def split: option.splits if_splits)
qed

lemma apply_proposal_preview:
  assumes "prop_mode req \<noteq> Some ''apply''" and "apply_proposal h tok now req s = Some (r, s')"
  shows "files s' = files s \<and> dirs s' = dirs s"
proof (cases "prop_mode req = None \<or> prop_mode req = Some ''dry-run''")
  case True
  with assms(2) show ?thesis
    by (auto simp: apply_proposal_def Let_def withFileLock_eq apply_proposal_locked_dry_run
        split: option.splits if_splits)
next
  case False
  with assms show ?thesis
    by (auto simp: apply_proposal_def Let_def split: option.splits if_splits)
qed

text \<open>
  C3. For every request and state, a call of either handler whose mode is not
  \<open>apply\<close> (the dry run, which is also the default, and every invalid mode) leaves
  every file as it was, the target among them, and creates neither a backup file nor
  the backup directory, whatever response or exception it ends with.
\<close>

theorem preview_mode_purity:
  "(fix_mode fq \<noteq> Some ''apply'' \<and> apply_fix h tok now fq s = Some (r, s') \<longrightarrow>
      files s' = files s \<and> dirs s' = dirs s) \<and>
   (prop_mode pq \<noteq> Some ''apply'' \<and> apply_proposal h tok now pq s = Some (r, s') \<longrightarrow>
      files s' = files s \<and> dirs s' = dirs s)"
  using apply_fix_preview [of fq h tok now s r s'] apply_proposal_preview [of pq h tok now s r s']
  by blast

theorem preview_mode_purity_witness:
  "(case apply_fix (\<lambda>x. x) ''secret'' exampleNow (exampleFix\<lparr>fix_mode := Some ''dry-run''\<rparr>)
           exampleState of
      None \<Rightarrow> False
    | Some (r, s') \<Rightarrow> files s' = files exampleState \<and> dirs s' = dirs exampleState) \<and>
   (case apply_proposal (\<lambda>x. x) ''secret'' exampleNow (exampleProposal\<lparr>prop_mode := None\<rparr>)
           exampleState of
      None \<Rightarrow> False
    | Some (r, s') \<Rightarrow> files s' = files exampleState \<and> dirs s' = dirs exampleState)"
proof -
  let ?fq = "exampleFix\<lparr>fix_mode := Some ''dry-run''\<rparr>"
  let ?pq = "exampleProposal\<lparr>prop_mode := None\<rparr>"
  have "apply_fix (\<lambda>x. x) ''secret'' exampleNow ?fq exampleState \<noteq> None"
    by (rule apply_fix_returns) (simp add: example_defs)
  then obtain r1 s1 where 1: "apply_fix (\<lambda>x. x) ''secret'' exampleNow ?fq exampleState = Some (r1, s1)"
    by auto
  have "apply_proposal (\<lambda>x. x) ''secret'' exampleNow ?pq exampleState \<noteq> None"
    by (rule apply_proposal_returns) (simp add: example_defs)
  then obtain r2 s2 where
    2: "apply_proposal (\<lambda>x. x) ''secret'' exampleNow ?pq exampleState = Some (r2, s2)"
    by auto
  have m: "fix_mode ?fq \<noteq> Some ''apply''" "prop_mode ?pq \<noteq> Some ''apply''" by simp_all
  from preview_mode_purity [of ?fq "\<lambda>x. x" "''secret''" exampleNow exampleState r1 s1] 1 m
  have "files s1 = files exampleState \<and> dirs s1 = dirs exampleState" by blast
  moreover from preview_mode_purity [of _ _ _ _ exampleState r2 s2 ?pq] 2 m
  have "files s2 = files exampleState \<and> dirs s2 = dirs exampleState" by blast
  ultimately show ?thesis by (simp add: 1 2)
qed

section \<open>Backup before overwrite\<close>

lemma backedUpI:
  assumes "backupFile now p t = (Inr bk, t1)"
    and "files t = files s" and "dirs t = dirs s" and "unwritable t = unwritable s"
    and "files s' (backupPath bk) = files s p"
  shows "backedUp now p s s'"
proof -
  from backupFile_fs [OF assms(2-4), of now p] assms(1)
  have "fst (backupFile now p s) = Inr bk" by simp
  moreover from backupFile_Inr [OF assms(1)] have "backupPath bk = backupLocation now p"
    by (auto simp: backupLocation_def)
  ultimately show ?thesis using assms(5) by (auto simp: backedUp_def split: prod.splits)
qed

lemma backup_write_backedUp:
  assumes t: "files t = files s" "dirs t = dirs s" "unwritable t = unwritable s"
    and b: "backupFile now ''index.js'' t = (Inr bk, t2)"
    and w: "writeText ''index.js'' c t2 = Inr s3"
    and f: "files s' = files s3"
  shows "backedUp now ''index.js'' s s'"
proof (rule backedUpI [OF b t])
  from backupFile_Inr [OF b] t obtain content where
    c: "files s ''index.js'' = Some content"
    and p: "backupPath bk = BACKUPS_DIR @ ''/'' @ basename ''index.js'' @ ''.'' @ nowStamp now @ ''.bak''"
    and f2: "files t2 = (files s)(backupPath bk \<mapsto> content)"
    by auto
  from p have ne: "backupPath bk \<noteq> ''index.js''" using backup_path_not_target by simp
  from writeText_Inr [OF w] f have "files s' = (files t2)(''index.js'' \<mapsto> c)" by simp
  with f2 ne c show "files s' (backupPath bk) = files s ''index.js''" by simp
qed

lemma backup_only_keeps_target:
  assumes t: "files t = files s"
    and b: "backupFile now ''index.js'' t = (rb, t2)"
  shows "files t2 ''index.js'' = files s ''index.js''"
proof (cases rb)
  case (Inl e)
  with b t show ?thesis by (auto dest: backupFile_Inl)
next
  case (Inr bk)
  with b have b': "backupFile now ''index.js'' t = (Inr bk, t2)" by simp
  from backupFile_Inr [OF b'] t obtain content where
    p: "backupPath bk = BACKUPS_DIR @ ''/'' @ basename ''index.js'' @ ''.'' @ nowStamp now @ ''.bak''"
    and f2: "files t2 = (files s)(backupPath bk \<mapsto> content)"
    by auto
  from p have "backupPath bk \<noteq> ''index.js''" using backup_path_not_target by simp
  with f2 show ?thesis by simp
qed

lemma apply_fix_locked_backup:
  assumes run: "apply_fix_locked h now targetFile fixType mode ''index.js'' s = (r, s')"
    and ch: "files s' ''index.js'' \<noteq> files s ''index.js'' \<or> applied r"
  shows "backedUp now ''index.js'' s s'"
proof (cases "files s ''index.js''")
  case None
  with run have "s' = s" "\<not> applied r"
    by (auto simp: apply_fix_locked_def readText_def applied_def)
  with ch show ?thesis by simp
next
  case (Some original)
  let ?result = "runFix fixType original"
  let ?t = "snd (tryInsert ''fix_attempts''
                     [[(''source'', JStr ''panel''), (''target_file'', JStr targetFile),
                       (''fix_type'', JStr fixType), (''mode'', JStr mode),
                       (''changed'', JBool (changed ?result)),
                       (''summary'', JStr (summary ?result)),
                       (''diff_count'', JNum (length (generateSemanticDiff original (updated ?result))))]] s)"
  have t: "files ?t = files s" "dirs ?t = dirs s" "unwritable ?t = unwritable s" by simp_all
  obtain rb t2 where b: "backupFile now ''index.js'' ?t = (rb, t2)"
    by (cases "backupFile now ''index.js'' ?t")
  show ?thesis
  proof (cases "mode = ''dry-run''")
    case True
    with run Some have "files s' = files s" "\<not> applied r"
      by (auto simp: apply_fix_locked_def readText_def Let_def applied_def)
    with ch show ?thesis by simp
  next
    case False
    note dry = this
    show ?thesis
    proof (cases rb)
      case (Inl e)
      with run Some dry b have "s' = t2" "\<not> applied r"
        by (auto simp: apply_fix_locked_def readText_def Let_def applied_def)
      with backup_only_keeps_target [OF t(1) b] ch show ?thesis by simp
    next
      case (Inr bk)
      show ?thesis
      proof (cases "writeText ''index.js'' (updated ?result) t2")
        case (Inl e)
        with run Some dry b Inr have "s' = t2" "\<not> applied r"
          by (auto simp: apply_fix_locked_def readText_def Let_def applied_def)
        with backup_only_keeps_target [OF t(1) b] ch show ?thesis by simp
      next
        case w: (Inr s3)
        with run Some dry b Inr have f: "files s' = files s3"
          by (auto simp: apply_fix_locked_def readText_def Let_def)
        from b Inr have b': "backupFile now ''index.js'' ?t = (Inr bk, t2)" by simp
        show ?thesis by (rule backup_write_backedUp [OF t b' w f])
      qed
    qed
  qed
qed

lemma apply_proposal_locked_eq:
  assumes "files s targetPath = Some original" and "INSERTION_ZONES zone = Some marker"
    and "insertAtMarker original marker proposedCode = Some upd"
  shows "apply_proposal_locked h now targetFile zone proposedCode intent mode project targetPath s =
    (let hash = proposalHashOf h targetFile zone intent proposedCode;
         s2 = afterAudit h targetFile zone proposedCode intent mode project original s
     in if mode = ''dry-run''
        then (Inr (Response 200 (ProposalDryRun targetFile zone intent hash
                 (generateSemanticDiff original upd))), s2)
        else (case selectMaybeSingle ''applied_patches'' ''patch_key'' (JStr hash) s2 of
                Some already \<Rightarrow>
                  (Inr (Response 409 (DuplicateBody
                     ''This proposalHash was already applied (duplicate prevented).'' hash)), s2)
              | None \<Rightarrow>
                  (case backupFile now targetPath s2 of
                     (Inl e, s3) \<Rightarrow> (Inl e, s3)
                   | (Inr bk, s3) \<Rightarrow>
                       (case writeText targetPath upd s3 of
                          Inl e \<Rightarrow> (Inl e, s3)
                        | Inr s4 \<Rightarrow>
                            (Inr (Response 200 (ProposalApplied targetFile zone intent hash bk
                                    (length (generateSemanticDiff original upd)))),
                             snd (tryInsert ''applied_patches''
                                    [patchRow project targetFile hash intent (backupName bk)] s4))))))"
  unfolding apply_proposal_locked_def readText_def proposalHashOf_def afterAudit_def
    patchRow_def Let_def
  by (simp only: assms option.case sum.case)

lemma apply_proposal_locked_no_plan:
  assumes "files s targetPath = None \<or> INSERTION_ZONES zone = None \<or>
    (\<exists>original marker. files s targetPath = Some original \<and> INSERTION_ZONES zone = Some marker \<and>
       insertAtMarker original marker proposedCode = None)"
  shows "snd (apply_proposal_locked h now targetFile zone proposedCode intent mode project targetPath s) = s \<and>
    \<not> applied (fst (apply_proposal_locked h now targetFile zone proposedCode intent mode project
                      targetPath s))"
  using assms
  by (auto simp: apply_proposal_locked_def readText_def applied_def split: option.splits)

lemma apply_proposal_locked_backup:
  assumes run: "apply_proposal_locked h now targetFile zone proposedCode intent mode project
                  ''index.js'' s = (r, s')"
    and ch: "files s' ''index.js'' \<noteq> files s ''index.js'' \<or> applied r"
  shows "backedUp now ''index.js'' s s'"
proof -
  from run ch
  have "snd (apply_proposal_locked h now targetFile zone proposedCode intent mode project
               ''index.js'' s) \<noteq> s \<or>
        applied (fst (apply_proposal_locked h now targetFile zone proposedCode intent mode project
               ''index.js'' s))"
    by auto
  with apply_proposal_locked_no_plan [of s "''index.js''" zone proposedCode h now targetFile intent mode project]
  obtain original marker upd where
    plan: "files s ''index.js'' = Some original" "INSERTION_ZONES zone = Some marker"
      "insertAtMarker original marker proposedCode = Some upd"
    by (cases "files s ''index.js''"; cases "INSERTION_ZONES zone") auto
  let ?hash = "proposalHashOf h targetFile zone intent proposedCode"
  let ?t = "afterAudit h targetFile zone proposedCode intent mode project original s"
  note eq = apply_proposal_locked_eq [OF plan, of h now targetFile intent mode project]
  have t: "files ?t = files s" "dirs ?t = dirs s" "unwritable ?t = unwritable s" by simp_all
  obtain rb t2 where b: "backupFile now ''index.js'' ?t = (rb, t2)"
    by (cases "backupFile now ''index.js'' ?t")
  show ?thesis
  proof (cases "mode = ''dry-run'' \<or>
      selectMaybeSingle ''applied_patches'' ''patch_key'' (JStr ?hash) ?t \<noteq> None")
    case True
    with run eq have "s' = ?t" "\<not> applied r"
      by (auto simp: Let_def applied_def split: if_splits)
    with ch show ?thesis by simp
  next
    case False
    note go = this
    show ?thesis
    proof (cases rb)
      case (Inl e)
      with run eq go b have "s' = t2" "\<not> applied r"
        by (auto simp: Let_def applied_def split: if_splits)
      with backup_only_keeps_target [OF t(1) b] ch show ?thesis by simp
    next
      case (Inr bk)
      show ?thesis
      proof (cases "writeText ''index.js'' upd t2")
        case (Inl e)
        with run eq go b Inr have "s' = t2" "\<not> applied r"
          by (auto simp: Let_def applied_def split: if_splits)
        with backup_only_keeps_target [OF t(1) b] ch show ?thesis by simp
      next
        case w: (Inr s3)
        with run eq go b Inr have f: "files s' = files s3" by (auto simp: Let_def split: if_splits)
        from b Inr have b': "backupFile now ''index.js'' ?t = (Inr bk, t2)" by simp
        show ?thesis by (rule backup_write_backedUp [OF t b' w f])
      qed
    qed
  qed
qed

lemma backedUp_cong:
  assumes "backedUp now p t t'"
    and "files t = files s" and "dirs t = dirs s" and "unwritable t = unwritable s"
    and "files t' = files s'"
  shows "backedUp now p s s'"
proof -
  from backupFile_fs [OF assms(2-4), of now p]
  have "fst (backupFile now p t) = fst (backupFile now p s)" .
  with assms(1,2,5) show ?thesis
    by (auto simp: backedUp_def split: prod.splits sum.splits)
qed

lemma apply_fix_backup:
  assumes run: "apply_fix h tok now fq s = Some (r, s')"
    and ch: "files s' (str (fix_targetFile fq)) \<noteq> files s (str (fix_targetFile fq)) \<or> applied r"
  shows "backedUp now (str (fix_targetFile fq)) s s'"
proof -
  let ?tf = "str (fix_targetFile fq)"
  let ?mode = "case fix_mode fq of None \<Rightarrow> ''dry-run'' | Some m \<Rightarrow> m"
  let ?body = "apply_fix_locked h now ?tf (str (fix_fixType fq)) ?mode ?tf"
  from run ch have tf: "?tf = ''index.js''"
    and lk: "withFileLock ?tf ?body s = Some (r, s')"
    by (auto simp: apply_fix_def Let_def FILE_ALLOWLIST_def requirePanelAuth_def applied_def
        split: option.splits if_splits)
  obtain rm sm where body: "?body (lockSet ?tf s) = (rm, sm)"
    by (cases "?body (lockSet ?tf s)")
  with lk have s': "s' = lockDelete ?tf sm" and r: "r = rm"
    by (auto simp: withFileLock_eq split: if_splits)
  with ch have "files sm ''index.js'' \<noteq> files (lockSet ?tf s) ''index.js'' \<or> applied rm"
    by (simp add: tf)
  with body tf have "backedUp now ''index.js'' (lockSet ?tf s) sm"
    by (auto intro: apply_fix_locked_backup)
  then have "backedUp now ''index.js'' s s'"
    by (rule backedUp_cong) (simp_all add: s')
  with tf show ?thesis by simp
qed

lemma apply_proposal_backup:
  assumes run: "apply_proposal h tok now pq s = Some (r, s')"
    and ch: "files s' (str (prop_targetFile pq)) \<noteq> files s (str (prop_targetFile pq)) \<or> applied r"
  shows "backedUp now (str (prop_targetFile pq)) s s'"
proof -
  let ?tf = "str (prop_targetFile pq)"
  let ?mode = "case prop_mode pq of None \<Rightarrow> ''dry-run'' | Some m \<Rightarrow> m"
  let ?project = "case prop_project pq of None \<Rightarrow> ''MLearning'' | Some p \<Rightarrow> p"
  let ?body = "apply_proposal_locked h now ?tf (str (prop_zone pq)) (str (prop_proposedCode pq))
                 (str (prop_intent pq)) ?mode ?project ?tf"
  from run ch have tf: "?tf = ''index.js''"
    and lk: "withFileLock ?tf ?body s = Some (r, s')"
    by (auto simp: apply_proposal_def Let_def FILE_ALLOWLIST_def requirePanelAuth_def applied_def
        split: option.splits if_splits)
  obtain rm sm where body: "?body (lockSet ?tf s) = (rm, sm)"
    by (cases "?body (lockSet ?tf s)")
  with lk have s': "s' = lockDelete ?tf sm" and r: "r = rm"
    by (auto simp: withFileLock_eq split: if_splits)
  with ch have "files sm ''index.js'' \<noteq> files (lockSet ?tf s) ''index.js'' \<or> applied rm"
    by (simp add: tf)
  with body tf have "backedUp now ''index.js'' (lockSet ?tf s) sm"
    by (auto intro: apply_proposal_locked_backup)
  then have "backedUp now ''index.js'' s s'"
    by (rule backedUp_cong) (simp_all add: s')
  with tf show ?thesis by simp
qed

lemma backedUp_not_failed:
  "backedUp now p s s' \<Longrightarrow> \<not> isl (fst (backupFile now p s))"
  by (auto simp: backedUp_def split: prod.splits sum.splits)

text \<open>
  C1, as the code has it. For both handlers, every request and every state: when the
  call has changed the content of the target file or answers that the patch was applied
  (the response sent after the overwrite), the backup step has succeeded, the path it
  names is the backup location \<open>fix-backups/<base>.<stamp>.bak\<close> of the target at the
  time of the call, and that path holds exactly the content that the target had before
  the call; and when the backup step fails (throws), the target file is not
  overwritten. The location is given by the target and the time stamp alone: it is new
  when no earlier backup of a target with that base name bears the same stamp, and the
  copy replaces the earlier backup otherwise.
\<close>

theorem backup_precedes_overwrite:
  "(apply_fix h tok now fq s = Some (r, s') \<longrightarrow>
      (files s' (str (fix_targetFile fq)) \<noteq> files s (str (fix_targetFile fq)) \<or> applied r \<longrightarrow>
         backedUp now (str (fix_targetFile fq)) s s') \<and>
      (isl (fst (backupFile now (str (fix_targetFile fq)) s)) \<longrightarrow>
         files s' (str (fix_targetFile fq)) = files s (str (fix_targetFile fq)) \<and> \<not> applied r)) \<and>
   (apply_proposal h tok now pq s = Some (r, s') \<longrightarrow>
      (files s' (str (prop_targetFile pq)) \<noteq> files s (str (prop_targetFile pq)) \<or> applied r \<longrightarrow>
         backedUp now (str (prop_targetFile pq)) s s') \<and>
      (isl (fst (backupFile now (str (prop_targetFile pq)) s)) \<longrightarrow>
         files s' (str (prop_targetFile pq)) = files s (str (prop_targetFile pq)) \<and> \<not> applied r))"
  using apply_fix_backup [of h tok now fq s r s'] apply_proposal_backup [of h tok now pq s r s']
    backedUp_not_failed [of now "str (fix_targetFile fq)" s s']
    backedUp_not_failed [of now "str (prop_targetFile pq)" s s']
  by blast

theorem backup_precedes_overwrite_witness:
  "(case apply_proposal (\<lambda>x. x) ''secret'' exampleNow exampleProposal exampleState of
      None \<Rightarrow> False
    | Some (r, s') \<Rightarrow>
        files s' ''index.js'' \<noteq> files exampleState ''index.js'' \<and> applied r \<and>
        backedUp exampleNow ''index.js'' exampleState s') \<and>
   isl (fst (backupFile exampleNow ''index.js'' (exampleState\<lparr>unwritable := {''fix-backups''}\<rparr>))) \<and>
   (case apply_fix (\<lambda>x. x) ''secret'' exampleNow exampleFix
           (exampleState\<lparr>unwritable := {''fix-backups''}\<rparr>) of
      None \<Rightarrow> False
    | Some (r, s') \<Rightarrow>
        files s' ''index.js'' = files (exampleState\<lparr>unwritable := {''fix-backups''}\<rparr>) ''index.js'' \<and>
        \<not> applied r)"
proof -
  let ?ro = "exampleState\<lparr>unwritable := {''fix-backups''}\<rparr>"
  have "\<exists>r s'. apply_proposal (\<lambda>x. x) ''secret'' exampleNow exampleProposal exampleState = Some (r, s') \<and>
      files s' ''index.js'' \<noteq> files exampleState ''index.js'' \<and> applied r"
    by (simp add: example_defs handler_defs applied_def)
  then obtain r1 s1 where
    1: "apply_proposal (\<lambda>x. x) ''secret'' exampleNow exampleProposal exampleState = Some (r1, s1)"
    and ch: "files s1 ''index.js'' \<noteq> files exampleState ''index.js''" "applied r1"
    by blast
  have tf: "str (prop_targetFile exampleProposal) = ''index.js''"
    "str (fix_targetFile exampleFix) = ''index.js''"
    by (simp_all add: example_defs str_def)
  from backup_precedes_overwrite [where h = "\<lambda>x. x" and tok = "''secret''" and now = exampleNow
      and pq = exampleProposal and s = exampleState and r = r1 and s' = s1] 1 ch tf
  have b: "backedUp exampleNow ''index.js'' exampleState s1" by simp
  have f: "isl (fst (backupFile exampleNow ''index.js'' ?ro))"
    by (simp add: example_defs backupFile_def ensureDir_def existsSync_def BACKUPS_DIR_def)
  have "apply_fix (\<lambda>x. x) ''secret'' exampleNow exampleFix ?ro \<noteq> None"
    by (rule apply_fix_returns) (simp add: example_defs)
  then obtain r2 s2 where
    2: "apply_fix (\<lambda>x. x) ''secret'' exampleNow exampleFix ?ro = Some (r2, s2)"
    by auto
  from backup_precedes_overwrite [where h = "\<lambda>x. x" and tok = "''secret''" and now = exampleNow
      and fq = exampleFix and s = ?ro and r = r2 and s' = s2] 2 f tf
  have "files s2 ''index.js'' = files ?ro ''index.js'' \<and> \<not> applied r2" by simp
  with 1 ch b f 2 show ?thesis by simp
qed

text \<open>
  Two applies to \<open>index.js\<close> with the same time stamp. The fix request backs up the
  source to the backup location and rewrites the file; the proposal request that
  follows is applied too, but its backup location is not new: it holds the backup of
  the source, which the copy replaces, so that the source is in no file afterwards.
\<close>

theorem backup_precedes_overwrite_counterexample:
  "files exampleAfterFix ''index.js'' \<noteq> Some exampleSource \<and>
   files exampleAfterFix (backupLocation exampleNow ''index.js'') = Some exampleSource \<and>
   \<not> newLocation (backupLocation exampleNow ''index.js'') exampleAfterFix \<and>
   (case apply_proposal (\<lambda>x. x) ''secret'' exampleNow exampleProposal exampleAfterFix of
      None \<Rightarrow> False
    | Some (r, s') \<Rightarrow>
        applied r \<and>
        files s' ''index.js'' \<noteq> files exampleAfterFix ''index.js'' \<and>
        backedUp exampleNow ''index.js'' exampleAfterFix s' \<and>
        files s' (backupLocation exampleNow ''index.js'') \<noteq> Some exampleSource \<and>
        exampleSource \<notin> ran (files s'))"
  by (simp add: exampleAfterFix_def example_defs handler_defs applied_def backedUp_def
      backupLocation_def newLocation_def)

section \<open>Duplicate-apply guard\<close>

lemma insertAtMarker_again:
  assumes "insertAtMarker original marker code = Some upd"
  shows "insertAtMarker upd marker code' \<noteq> None"
proof -
  from assms obtain idx where i: "indexOf original marker = Some idx"
    and u: "upd = take (idx + length marker) original @ [LF, LF] @ trim code @ [LF, LF] @
                  drop (idx + length marker) original"
    by (auto simp: insertAtMarker_def Let_def split: option.splits)
  from indexOf_Some_prefix [OF i] have p: "prefix marker (drop idx original)" and le: "idx \<le> length original"
    by simp_all
  from prefix_length_le [OF p] le have len: "idx + length marker \<le> length original"
    by simp
  from p have "take (length marker) (drop idx original) = marker"
    by (auto simp: prefix_def)
  then have "drop idx (take (idx + length marker) original) = marker"
    by (simp add: drop_take)
  with len have "prefix marker (drop idx upd)" by (simp add: u)
  moreover from len have "idx \<le> length upd" by (simp add: u)
  ultimately have "indexOf upd marker \<noteq> None" by (rule prefix_indexOf)
  then show ?thesis by (auto simp: insertAtMarker_def Let_def)
qed

lemma apply_proposal_valid:
  assumes "tok \<noteq> []" and "prop_x_panel_token pq = Some tok"
    and "prop_targetFile pq = Some tf" and "tf \<in> FILE_ALLOWLIST"
    and "prop_zone pq = Some zone" and "INSERTION_ZONES zone = Some marker"
    and "prop_proposedCode pq = Some code" and "code \<noteq> []"
    and "prop_intent pq = Some intent" and "intent \<noteq> []"
    and "prop_mode pq = Some ''apply''"
    and "files s tf \<noteq> None"
  shows "apply_proposal h tok now pq s =
     withFileLock tf (apply_proposal_locked h now tf zone code intent ''apply''
        (case prop_project pq of None \<Rightarrow> ''MLearning'' | Some p \<Rightarrow> p) tf) s"
proof -
  from assms(6) have "zone \<noteq> []" by (auto simp: INSERTION_ZONES_def split: if_splits)
  moreover from assms(4) have "tf = ''index.js''" by (simp add: FILE_ALLOWLIST_def)
  ultimately show ?thesis using assms
    by (auto simp: apply_proposal_def requirePanelAuth_def falsy_def str_def existsSync_def Let_def
        FILE_ALLOWLIST_def)
qed

lemma apply_proposal_locked_first:
  assumes plan: "files s ''index.js'' = Some original" "INSERTION_ZONES zone = Some marker"
      "insertAtMarker original marker code = Some upd"
    and store: "tables s ''applied_patches'' = Some rows"
      "\<forall>row\<in>set rows. map_of row ''patch_key'' \<noteq>
         Some (JStr (proposalHashOf h ''index.js'' zone intent code))"
    and bk: "fst (backupFile now ''index.js'' s) = Inr bk"
    and wr: "''index.js'' \<notin> dirs s" "''index.js'' \<notin> unwritable s"
  shows "\<exists>s5. apply_proposal_locked h now ''index.js'' zone code intent ''apply'' project ''index.js'' s =
      (Inr (Response 200 (ProposalApplied ''index.js'' zone intent
          (proposalHashOf h ''index.js'' zone intent code) bk
          (length (generateSemanticDiff original upd)))), s5) \<and>
     files s5 ''index.js'' = Some upd \<and>
     tables s5 ''applied_patches'' = Some (rows @
        [patchRow project ''index.js'' (proposalHashOf h ''index.js'' zone intent code) intent
           (backupName bk)]) \<and>
     fileLocks s5 = fileLocks s"
proof -
  let ?hash = "proposalHashOf h ''index.js'' zone intent code"
  let ?t = "afterAudit h ''index.js'' zone code intent ''apply'' project original s"
  note eq = apply_proposal_locked_eq [OF plan, of h now "''index.js''" intent "''apply''" project]
  have sel: "selectMaybeSingle ''applied_patches'' ''patch_key'' (JStr ?hash) ?t = None"
    using store by (auto intro: selectMaybeSingle_none)
  have "fst (backupFile now ''index.js'' ?t) = fst (backupFile now ''index.js'' s)"
    by (rule backupFile_fs) simp_all
  with bk obtain t2 where b: "backupFile now ''index.js'' ?t = (Inr bk, t2)"
    by (cases "backupFile now ''index.js'' ?t") auto
  from backupFile_dirs [OF b] wr have w: "''index.js'' \<notin> dirs t2" "''index.js'' \<notin> unwritable t2"
    by (auto simp: BACKUPS_DIR_def)
  from backupFile_Inr [OF b] have fl: "fileLocks t2 = fileLocks s"
    and tb: "tables t2 = tables ?t" by auto
  let ?s4 = "t2\<lparr>files := (files t2)(''index.js'' \<mapsto> upd)\<rparr>"
  from w have wt: "writeText ''index.js'' upd t2 = Inr ?s4" by (simp add: writeText_def)
  let ?s5 = "snd (tryInsert ''applied_patches'' [patchRow project ''index.js'' ?hash intent (backupName bk)] ?s4)"
  from eq sel b wt have "apply_proposal_locked h now ''index.js'' zone code intent ''apply'' project ''index.js'' s =
      (Inr (Response 200 (ProposalApplied ''index.js'' zone intent ?hash bk
          (length (generateSemanticDiff original upd)))), ?s5)"
    by (simp add: Let_def)
  moreover have "files ?s5 ''index.js'' = Some upd" by simp
  moreover from tb store have "tables ?s5 ''applied_patches'' = Some (rows @
        [patchRow project ''index.js'' ?hash intent (backupName bk)])"
    by (simp add: tryInsert_tables)
  moreover from fl have "fileLocks ?s5 = fileLocks s" by simp
  ultimately show ?thesis by blast
qed

lemma apply_proposal_locked_second:
  assumes plan: "files s ''index.js'' = Some upd" "INSERTION_ZONES zone = Some marker"
      "insertAtMarker upd marker code \<noteq> None"
    and store: "tables s ''applied_patches'' = Some (rows @ [new])"
      "\<forall>row\<in>set rows. map_of row ''patch_key'' \<noteq>
         Some (JStr (proposalHashOf h ''index.js'' zone intent code))"
      "map_of new ''patch_key'' = Some (JStr (proposalHashOf h ''index.js'' zone intent code))"
  shows "\<exists>s2. apply_proposal_locked h now ''index.js'' zone code intent ''apply'' project ''index.js'' s =
      (Inr (Response 409 (DuplicateBody
          ''This proposalHash was already applied (duplicate prevented).''
          (proposalHashOf h ''index.js'' zone intent code))), s2) \<and>
     files s2 = files s \<and> dirs s2 = dirs s"
proof -
  from plan(3) obtain upd2 where p3: "insertAtMarker upd marker code = Some upd2" by auto
  let ?hash = "proposalHashOf h ''index.js'' zone intent code"
  let ?t = "afterAudit h ''index.js'' zone code intent ''apply'' project upd s"
  note eq = apply_proposal_locked_eq [OF plan(1,2) p3, of h now "''index.js''" intent "''apply''" project]
  have "selectMaybeSingle ''applied_patches'' ''patch_key'' (JStr ?hash) ?t = Some new"
    using store by (auto intro: selectMaybeSingle_one)
  with eq have "apply_proposal_locked h now ''index.js'' zone code intent ''apply'' project ''index.js'' s =
      (Inr (Response 409 (DuplicateBody
          ''This proposalHash was already applied (duplicate prevented).'' ?hash)), ?t)"
    by (simp add: Let_def)
  then show ?thesis by simp
qed

text \<open>
  C2. An authorised apply-mode proposal for an allowlisted file that exists and
  contains the zone's marker, submitted when the \<open>applied_patches\<close> table can be
  reached and holds no record with the proposal's hash, the lock is free and the backup
  and the write are permitted, succeeds (200, applied). Submitted again, at any later
  time, it is answered with 409 and the proposal hash, and that second call changes
  no file and creates no directory: no backup is made and the target is not written.
\<close>

theorem duplicate_apply_guard:
  assumes auth: "tok \<noteq> []" "prop_x_panel_token pq = Some tok"
    and req: "prop_targetFile pq = Some tf" "tf \<in> FILE_ALLOWLIST"
      "prop_zone pq = Some zone" "INSERTION_ZONES zone = Some marker"
      "prop_proposedCode pq = Some code" "code \<noteq> []"
      "prop_intent pq = Some intent" "intent \<noteq> []"
      "prop_mode pq = Some ''apply''"
    and src: "files s tf = Some original" "indexOf original marker \<noteq> None"
    and store: "tables s ''applied_patches'' = Some rows"
      "\<forall>row\<in>set rows. map_of row ''patch_key'' \<noteq>
         Some (JStr (h (tf @ ''|'' @ zone @ ''|'' @ intent @ ''|'' @ trim code)))"
    and lock: "fileLocks s tf \<noteq> Some True"
    and fs: "fst (backupFile now tf s) = Inr bk" "tf \<notin> dirs s" "tf \<notin> unwritable s"
  shows "\<exists>n s1.
     apply_proposal h tok now pq s =
       Some (Inr (Response 200 (ProposalApplied tf zone intent
          (h (tf @ ''|'' @ zone @ ''|'' @ intent @ ''|'' @ trim code)) bk n)), s1) \<and>
     (\<forall>now'. \<exists>s2.
        apply_proposal h tok now' pq s1 =
          Some (Inr (Response 409 (DuplicateBody
             ''This proposalHash was already applied (duplicate prevented).''
             (h (tf @ ''|'' @ zone @ ''|'' @ intent @ ''|'' @ trim code)))), s2) \<and>
        files s2 = files s1 \<and> dirs s2 = dirs s1)"
proof -
  from req(2) have tf: "tf = ''index.js''" by (simp add: FILE_ALLOWLIST_def)
  let ?project = "case prop_project pq of None \<Rightarrow> ''MLearning'' | Some p \<Rightarrow> p"
  let ?hash = "proposalHashOf h ''index.js'' zone intent code"
  let ?body = "\<lambda>now. apply_proposal_locked h now ''index.js'' zone code intent ''apply'' ?project ''index.js''"
  have hash: "h (tf @ ''|'' @ zone @ ''|'' @ intent @ ''|'' @ trim code) = ?hash"
    by (simp add: proposalHashOf_def tf)
  from src(2) obtain upd where upd: "insertAtMarker original marker code = Some upd"
    by (auto simp: insertAtMarker_def Let_def)
  \<comment> \<open>first submission\<close>
  let ?sl = "lockSet ''index.js'' s"
  have "fst (backupFile now ''index.js'' ?sl) = fst (backupFile now ''index.js'' s)"
    by (rule backupFile_fs) simp_all
  with fs(1) tf have bk: "fst (backupFile now ''index.js'' ?sl) = Inr bk" by simp
  from apply_proposal_locked_first [of ?sl original zone marker code upd rows h intent now bk ?project]
    src(1) req(4) upd store hash bk fs(2,3) tf
  obtain s5 where
    first: "?body now ?sl = (Inr (Response 200 (ProposalApplied ''index.js'' zone intent ?hash bk
              (length (generateSemanticDiff original upd)))), s5)"
    and f5: "files s5 ''index.js'' = Some upd"
    and t5: "tables s5 ''applied_patches'' = Some (rows @
        [patchRow ?project ''index.js'' ?hash intent (backupName bk)])"
    by auto
  let ?s1 = "lockDelete ''index.js'' s5"
  from src(1) have "files s tf \<noteq> None" by simp
  from apply_proposal_valid [OF auth req this, of h now] lock first tf
  have run1: "apply_proposal h tok now pq s =
      Some (Inr (Response 200 (ProposalApplied ''index.js'' zone intent ?hash bk
              (length (generateSemanticDiff original upd)))), ?s1)"
    by (simp add: withFileLock_eq)
  \<comment> \<open>second submission\<close>
  have second: "\<exists>s2. apply_proposal h tok now' pq ?s1 =
          Some (Inr (Response 409 (DuplicateBody
             ''This proposalHash was already applied (duplicate prevented).'' ?hash)), s2) \<and>
        files s2 = files ?s1 \<and> dirs s2 = dirs ?s1" for now'
  proof -
    let ?sl' = "lockSet ''index.js'' ?s1"
    have new: "map_of (patchRow ?project ''index.js'' ?hash intent (backupName bk)) ''patch_key'' =
        Some (JStr ?hash)"
      by (simp add: patchRow_def)
    from apply_proposal_locked_second [of ?sl' upd zone marker code rows
        "patchRow ?project ''index.js'' ?hash intent (backupName bk)" h intent now' ?project]
      f5 t5 req(4) insertAtMarker_again [OF upd, of code] store(2) hash new
    obtain s2' where
      b2: "?body now' ?sl' = (Inr (Response 409 (DuplicateBody
          ''This proposalHash was already applied (duplicate prevented).'' ?hash)), s2')"
      and f2: "files s2' = files ?sl'" "dirs s2' = dirs ?sl'"
      by auto
    from f5 have "files ?s1 tf \<noteq> None" by (simp add: tf)
    from apply_proposal_valid [OF auth req this, of h now'] b2 tf
    have "apply_proposal h tok now' pq ?s1 =
        Some (Inr (Response 409 (DuplicateBody
          ''This proposalHash was already applied (duplicate prevented).'' ?hash)),
          lockDelete ''index.js'' s2')"
      by (simp add: withFileLock_eq)
    with f2 show ?thesis by simp
  qed
  from run1 second have "\<exists>n s1.
     apply_proposal h tok now pq s =
       Some (Inr (Response 200 (ProposalApplied ''index.js'' zone intent ?hash bk n)), s1) \<and>
     (\<forall>now'. \<exists>s2.
        apply_proposal h tok now' pq s1 =
          Some (Inr (Response 409 (DuplicateBody
             ''This proposalHash was already applied (duplicate prevented).'' ?hash)), s2) \<and>
        files s2 = files s1 \<and> dirs s2 = dirs s1)"
    by blast
  then show ?thesis by (simp add: tf proposalHashOf_def)
qed

theorem duplicate_apply_guard_witness:
  "\<exists>n s1.
     apply_proposal (\<lambda>x. x) ''secret'' exampleNow exampleProposal exampleState =
       Some (Inr (Response 200 (ProposalApplied ''index.js'' ''routes'' ''add f''
          ''index.js|routes|add f|f()''
          \<lparr> backupName = ''index.js.2024-01-01T00-00-00-000Z.bak'',
            backupPath = ''fix-backups/index.js.2024-01-01T00-00-00-000Z.bak'' \<rparr> n)), s1) \<and>
     (\<forall>now'. \<exists>s2.
        apply_proposal (\<lambda>x. x) ''secret'' now' exampleProposal s1 =
          Some (Inr (Response 409 (DuplicateBody
             ''This proposalHash was already applied (duplicate prevented).''
             ''index.js|routes|add f|f()'')), s2) \<and>
        files s2 = files s1 \<and> dirs s2 = dirs s1)"
proof -
  have auth: "''secret'' \<noteq> []" "prop_x_panel_token exampleProposal = Some ''secret''"
    by (simp_all add: example_defs)
  have req: "prop_targetFile exampleProposal = Some ''index.js''" "''index.js'' \<in> FILE_ALLOWLIST"
      "prop_zone exampleProposal = Some ''routes''"
      "INSERTION_ZONES ''routes'' = Some (''/* ============================='' @ [LF] @
         ''   ROUTES'' @ [LF] @ ''============================= */'')"
      "prop_proposedCode exampleProposal = Some '' f() ''" "'' f() '' \<noteq> []"
      "prop_intent exampleProposal = Some ''add f''" "''add f'' \<noteq> []"
      "prop_mode exampleProposal = Some ''apply''"
    by (simp_all add: example_defs FILE_ALLOWLIST_def INSERTION_ZONES_def)
  have src: "files exampleState ''index.js'' = Some exampleSource"
    "indexOf exampleSource (''/* ============================='' @ [LF] @
         ''   ROUTES'' @ [LF] @ ''============================= */'') \<noteq> None"
    by (simp_all add: example_defs)
  have store: "tables exampleState ''applied_patches'' = Some []"
    "\<forall>row\<in>set []. map_of row ''patch_key'' \<noteq>
       Some (JStr (''index.js'' @ ''|'' @ ''routes'' @ ''|'' @ ''add f'' @ ''|'' @ trim '' f() ''))"
    by (simp_all add: example_defs)
  have lock: "fileLocks exampleState ''index.js'' \<noteq> Some True" by (simp add: example_defs)
  have fs: "fst (backupFile exampleNow ''index.js'' exampleState) =
      Inr \<lparr> backupName = ''index.js.2024-01-01T00-00-00-000Z.bak'',
            backupPath = ''fix-backups/index.js.2024-01-01T00-00-00-000Z.bak'' \<rparr>"
    "''index.js'' \<notin> dirs exampleState" "''index.js'' \<notin> unwritable exampleState"
    by (simp_all add: example_defs backupFile_def ensureDir_def existsSync_def copyFileSync_def
        BACKUPS_DIR_def basename_def nowStamp_def Let_def)
  from duplicate_apply_guard [where h = "\<lambda>x. x", OF auth req src store lock fs] show ?thesis
    by (simp add: trim_def isWhiteSpace_def)
qed

section \<open>Whitespace around the proposed code\<close>

lemma apply_proposal_locked_trim:
  assumes "list_all isWhiteSpace l" and "list_all isWhiteSpace r"
  shows "insertAtMarker original marker (l @ code @ r) = insertAtMarker original marker code"
    and "apply_proposal_locked h now targetFile zone (l @ code @ r) intent mode project targetPath s =
         apply_proposal_locked h now targetFile zone code intent mode project targetPath s"
proof -
  from assms have t: "trim (l @ code @ r) = trim code"
    by (simp add: trim_surrounding_whitespace)
  show "insertAtMarker original marker (l @ code @ r) = insertAtMarker original marker code"
    unfolding insertAtMarker_def by (simp only: t)
  show "apply_proposal_locked h now targetFile zone (l @ code @ r) intent mode project targetPath s =
         apply_proposal_locked h now targetFile zone code intent mode project targetPath s"
    unfolding apply_proposal_locked_def insertAtMarker_def by (simp only: t)
qed

text \<open>
  C10, as the code has it. For every target file, zone and intent (and every token,
  mode, project, time and state), two requests to \<open>/apply-proposal\<close> whose proposed
  codes are not empty and differ only in leading and trailing whitespace have the same
  outcome in every state (the same response, the same rows recorded, the same file
  written), the same proposal hash and the same updated content; in the state that
  one of them leaves behind, the other is answered as the first would be again.
\<close>

theorem proposal_whitespace_variants:
  assumes "list_all isWhiteSpace (l @ r @ l' @ r')"
    and "l @ code @ r \<noteq> []" and "l' @ code @ r' \<noteq> []"
  shows "apply_proposal h tok now (pq\<lparr>prop_proposedCode := Some (l @ code @ r)\<rparr>) s =
           apply_proposal h tok now (pq\<lparr>prop_proposedCode := Some (l' @ code @ r')\<rparr>) s \<and>
         proposalHashOf h targetFile zone intent (l @ code @ r) =
           proposalHashOf h targetFile zone intent (l' @ code @ r') \<and>
         insertAtMarker original marker (l @ code @ r) =
           insertAtMarker original marker (l' @ code @ r')"
proof -
  from assms(1) have ws: "list_all isWhiteSpace l" "list_all isWhiteSpace r"
    "list_all isWhiteSpace l'" "list_all isWhiteSpace r'" by simp_all
  have eq: "apply_proposal_locked h now tf z (l @ code @ r) i m p tp =
            apply_proposal_locked h now tf z (l' @ code @ r') i m p tp" for tf z i m p tp
    by (rule ext)
       (simp only: apply_proposal_locked_trim(2) [OF ws(1,2)] apply_proposal_locked_trim(2) [OF ws(3,4)])
  from assms(2,3) have ne: "\<not> falsy (Some (l @ code @ r))" "\<not> falsy (Some (l' @ code @ r'))"
    by (simp_all add: falsy_def)
  have req: "apply_proposal h tok now (pq\<lparr>prop_proposedCode := Some (l @ code @ r)\<rparr>) s =
             apply_proposal h tok now (pq\<lparr>prop_proposedCode := Some (l' @ code @ r')\<rparr>) s"
  proof (cases "requirePanelAuth tok (prop_x_panel_token pq)")
    case None
    then show ?thesis
      unfolding apply_proposal_def Let_def by (simp add: eq ne str_def del: append_assoc)
  next
    case (Some resp)
    then show ?thesis by (simp add: apply_proposal_def)
  qed
  from ws have "proposalHashOf h targetFile zone intent (l @ code @ r) =
      proposalHashOf h targetFile zone intent (l' @ code @ r')"
    by (simp add: proposalHashOf_def trim_surrounding_whitespace)
  moreover from ws have "insertAtMarker original marker (l @ code @ r) =
      insertAtMarker original marker (l' @ code @ r')"
    by (simp add: apply_proposal_locked_trim(1))
  ultimately show ?thesis using req by simp
qed

theorem proposal_whitespace_variants_witness:
  "apply_proposal (\<lambda>x. x) ''secret'' exampleNow
     (exampleProposal\<lparr>prop_proposedCode := Some ('' '' @ ''f()'' @ [LF])\<rparr>) exampleState =
   apply_proposal (\<lambda>x. x) ''secret'' exampleNow
     (exampleProposal\<lparr>prop_proposedCode := Some ([] @ ''f()'' @ '' '')\<rparr>) exampleState \<and>
   map_option (applied \<circ> fst)
     (apply_proposal (\<lambda>x. x) ''secret'' exampleNow
        (exampleProposal\<lparr>prop_proposedCode := Some ([] @ ''f()'' @ '' '')\<rparr>) exampleState) = Some True"
proof -
  have 1: "list_all isWhiteSpace ('' '' @ [LF] @ [] @ '' '')" by code_simp
  have 2: "'' '' @ ''f()'' @ [LF] \<noteq> []" and 3: "[] @ ''f()'' @ '' '' \<noteq> []" by simp_all
  have 4: "map_option (applied \<circ> fst)
     (apply_proposal (\<lambda>x. x) ''secret'' exampleNow
        (exampleProposal\<lparr>prop_proposedCode := Some ([] @ ''f()'' @ '' '')\<rparr>) exampleState) = Some True"
    by (simp add: example_defs handler_defs applied_def)
  from proposal_whitespace_variants [where h = "\<lambda>x. x", OF 1 2 3] 4 show ?thesis by blast
qed

text \<open>
  Codes that differ only in surrounding whitespace, one of them empty: the request
  with the empty code is answered 400, since validation reads the empty string as a
  missing field before any trimming, and the request with a code of one space is
  applied, with the hash of the empty code and an empty line inserted.
\<close>

theorem proposal_whitespace_variants_counterexample:
  "apply_proposal (\<lambda>x. x) ''secret'' exampleNow
     (exampleProposal\<lparr>prop_proposedCode := Some []\<rparr>) exampleState =
     Some (Inr (Response 400 (ErrorBody ''Missing targetFile, zone, proposedCode, or intent'')),
           exampleState) \<and>
   map_option (applied \<circ> fst)
     (apply_proposal (\<lambda>x. x) ''secret'' exampleNow
        (exampleProposal\<lparr>prop_proposedCode := Some '' ''\<rparr>) exampleState) = Some True \<and>
   list_all isWhiteSpace '' '' \<and> trim '' '' = trim []"
  by (simp add: example_defs handler_defs applied_def isWhiteSpace_def trim_def)

end
